theory Spec2Isabelle
  imports Main "HOL-Library.Word" "HOL-Library.AList"
begin

unbundle bit_operations_syntax

section \<open>Event model\<close>

text \<open>
  A Go \<^verbatim>\<open>string\<close> and a Go \<^verbatim>\<open>[]byte\<close> are both sequences of bytes; a HOL
  \<^typ>\<open>char\<close> is one byte, so both are modelled as \<^typ>\<open>string\<close>. Go's \<^verbatim>\<open>int\<close> is
  modelled as \<^typ>\<open>int\<close>: the values that occur (bytes, parsed decimals clamped to
  the 64-bit range, small sums of them) never leave the 64-bit range, and the bit
  operations of \<^typ>\<open>int\<close> are the two's complement ones. A run-time panic is a value
  of type \<open>panic\<close>.
\<close>

datatype panic = IndexOutOfRange | SliceBoundsOutOfRange

abbreviation ESC :: char where "ESC \<equiv> CHR 0x1B"

text \<open>
  Modelled from the spec: the declarations of \<^verbatim>\<open>Mod\<close> and of its constants are not
  part of the sources at hand. Section 3 of the specification makes it a bitset over
  Shift, Alt, Ctrl, Meta, and the comments on the \<^verbatim>\<open>modifiers\<close> table of
  \<^verbatim>\<open>registerKeys\<close> number the combinations: Shift is 1, Alt is 2, Ctrl is 4, Meta
  is 8. The bitset is taken to be 16 bits wide.
\<close>

type_synonym Mod = "16 word"

definition Shift :: Mod where "Shift = 1"
definition Alt :: Mod where "Alt = 2"
definition Ctrl :: Mod where "Ctrl = 4"
definition Meta :: Mod where "Meta = 8"

text \<open>
  Modelled from the spec: the declaration of \<^verbatim>\<open>KeySym\<close> is not part of the sources
  at hand. It is a closed enumeration (Section 3) whose zero value, here
  \<open>KeyNone\<close>, stands for "no symbol"; the other members are the ones the sources
  name.
\<close>

datatype (plugins only: code) KeySym =
    KeyNone
  | KeyBackspace | KeyTab | KeyEnter | KeyEscape | KeySpace | KeyDelete
  | KeyUp | KeyDown | KeyRight | KeyLeft | KeyBegin
  | KeyFind | KeyInsert | KeySelect | KeyPgUp | KeyPgDown | KeyHome | KeyEnd
  | KeyKpEnter | KeyKpEqual | KeyKpMul | KeyKpPlus | KeyKpComma | KeyKpMinus
  | KeyKpPeriod | KeyKpDiv
  | KeyKp0 | KeyKp1 | KeyKp2 | KeyKp3 | KeyKp4 | KeyKp5 | KeyKp6 | KeyKp7 | KeyKp8 | KeyKp9
  | KeyF1 | KeyF2 | KeyF3 | KeyF4 | KeyF5 | KeyF6 | KeyF7 | KeyF8 | KeyF9 | KeyF10
  | KeyF11 | KeyF12 | KeyF13 | KeyF14 | KeyF15 | KeyF16 | KeyF17 | KeyF18 | KeyF19 | KeyF20
  | KeyF21 | KeyF22 | KeyF23 | KeyF24
  | KeyNumLock | KeyScrollLock | KeyPrintScreen
  | KeyLeftShift | KeyRightShift | KeyLeftCtrl | KeyRightCtrl | KeyLeftAlt | KeyRightAlt
  | KeyLeftSuper | KeyRightSuper | KeyMenu

text \<open>
  The key record behind \<^verbatim>\<open>KeyDownEvent\<close> and \<^verbatim>\<open>KeyUpEvent\<close>, with the four fields
  the sources read and write. A \<^verbatim>\<open>rune\<close> is a 32-bit integer. \<open>zeroKey\<close> is Go's zero
  value, so that the composite literal \<^verbatim>\<open>KeyDownEvent{Sym: KeyUp}\<close> is
  \<open>zeroKey\<lparr>Sym := KeyUp\<rparr>\<close>.
\<close>

type_synonym rune = "32 word"

record Key =
  Sym :: KeySym
  Rune :: rune
  Mod :: Mod
  IsRepeat :: bool

definition zeroKey :: Key where
  "zeroKey = \<lparr>Sym = KeyNone, Rune = 0, Mod = 0, IsRepeat = False\<rparr>"

definition runeOf :: "char \<Rightarrow> rune" where
  "runeOf c = of_char c"

text \<open>\<^verbatim>\<open>type MouseButton int\<close> with the constants numbered by \<^verbatim>\<open>iota\<close>.\<close>

type_synonym MouseButton = int

definition MouseButtonNone :: MouseButton where "MouseButtonNone = 0"
definition MouseButtonLeft :: MouseButton where "MouseButtonLeft = 1"
definition MouseButtonMiddle :: MouseButton where "MouseButtonMiddle = 2"
definition MouseButtonRight :: MouseButton where "MouseButtonRight = 3"
definition MouseButtonWheelUp :: MouseButton where "MouseButtonWheelUp = 4"
definition MouseButtonWheelDown :: MouseButton where "MouseButtonWheelDown = 5"
definition MouseButtonWheelLeft :: MouseButton where "MouseButtonWheelLeft = 6"
definition MouseButtonWheelRight :: MouseButton where "MouseButtonWheelRight = 7"
definition MouseButtonBackward :: MouseButton where "MouseButtonBackward = 8"
definition MouseButtonForward :: MouseButton where "MouseButtonForward = 9"
definition MouseButton10 :: MouseButton where "MouseButton10 = 10"
definition MouseButton11 :: MouseButton where "MouseButton11 = 11"

text \<open>The \<^verbatim>\<open>mouse\<close> struct; its embedded \<^verbatim>\<open>Mod\<close> field is \<open>MouseMod\<close> here.\<close>

record mouse =
  X :: int
  Y :: int
  Button :: MouseButton
  MouseMod :: Mod

datatype Event =
    KeyDownEvent Key
  | KeyUpEvent Key
  | MouseDownEvent mouse
  | MouseUpEvent mouse
  | MouseMoveEvent mouse
  | UnknownCsiEvent string
  | MultiEvent "Event list"
  | NilEvent

section \<open>Mouse decoders\<close>

definition isWheel :: "MouseButton \<Rightarrow> bool" where
  "isWheel b = (MouseButtonWheelUp \<le> b \<and> b \<le> MouseButtonWheelRight)"

definition bitShift :: int where "bitShift = 0b00000100"
definition bitAlt :: int where "bitAlt = 0b00001000"
definition bitCtrl :: int where "bitCtrl = 0b00010000"
definition bitMotion :: int where "bitMotion = 0b00100000"
definition bitWheel :: int where "bitWheel = 0b01000000"
definition bitAdd :: int where "bitAdd = 0b10000000"
definition bitsMask :: int where "bitsMask = 0b00000011"

text \<open>
  \<^verbatim>\<open>parseMouseButton\<close> returns \<^verbatim>\<open>(mod, btn, isRelease, isMotion)\<close>. The three
  parts are computed in the order of the source: the modifiers, the button with the
  release flag, the motion flag.
\<close>

definition mouseModifiers :: "int \<Rightarrow> Mod" where
  "mouseModifiers b =
     (let m = 0;
          m = (if b AND bitAlt \<noteq> 0 then m OR Alt else m);
          m = (if b AND bitCtrl \<noteq> 0 then m OR Ctrl else m);
          m = (if b AND bitShift \<noteq> 0 then m OR Shift else m)
      in m)"

definition mouseButtonRelease :: "int \<Rightarrow> MouseButton \<times> bool" where
  "mouseButtonRelease b =
     (if b AND bitAdd \<noteq> 0 then (MouseButtonBackward + (b AND bitsMask), False)
      else if b AND bitWheel \<noteq> 0 then (MouseButtonWheelUp + (b AND bitsMask), False)
      else
        let btn = MouseButtonLeft + (b AND bitsMask)
        in if b AND bitsMask = bitsMask then (MouseButtonNone, True) else (btn, False))"

definition parseMouseButton :: "int \<Rightarrow> Mod \<times> MouseButton \<times> bool \<times> bool" where
  "parseMouseButton b =
     (let m = mouseModifiers b;
          (btn, isRelease) = mouseButtonRelease b;
          isMotion = (b AND bitMotion \<noteq> 0 \<and> \<not> isWheel btn)
      in (m, btn, isRelease, isMotion))"



text \<open>
  The regular expression \<^verbatim>\<open>(\d+);(\d+);(\d+)([Mm])\<close> of \<^verbatim>\<open>mouseSGRRegex\<close>.
  \<^verbatim>\<open>\d\<close> is an ASCII digit. At a given start position each \<^verbatim>\<open>\d+\<close> has to be
  followed by a byte that is no digit, so it can only match the longest run of digits
  there: \<open>digitRun\<close>. \<^verbatim>\<open>FindStringSubmatch\<close> returns the match at the leftmost start
  position where there is one, \<open>findSGR\<close>, as the four groups.
\<close>

definition isDigit :: "char \<Rightarrow> bool" where
  "isDigit c = (48 \<le> (of_char c :: nat) \<and> (of_char c :: nat) \<le> 57)"

definition digitRun :: "string \<Rightarrow> (string \<times> string) option" where
  "digitRun s =
     (let d = takeWhile isDigit s
      in if d = [] then None else Some (d, dropWhile isDigit s))"

definition matchSGRAt :: "string \<Rightarrow> (string \<times> string \<times> string \<times> char) option" where
  "matchSGRAt s =
     (case digitRun s of
        None \<Rightarrow> None
      | Some (b, s1) \<Rightarrow>
        (case s1 of
           [] \<Rightarrow> None
         | c1 # s2 \<Rightarrow>
           if c1 \<noteq> CHR '';'' then None
           else
             (case digitRun s2 of
                None \<Rightarrow> None
              | Some (px, s3) \<Rightarrow>
                (case s3 of
                   [] \<Rightarrow> None
                 | c2 # s4 \<Rightarrow>
                   if c2 \<noteq> CHR '';'' then None
                   else
                     (case digitRun s4 of
                        None \<Rightarrow> None
                      | Some (py, s5) \<Rightarrow>
                        (case s5 of
                           [] \<Rightarrow> None
                         | t # _ \<Rightarrow>
                           if t = CHR ''M'' \<or> t = CHR ''m'' then Some (b, px, py, t)
                           else None))))))"

fun findSGR :: "string \<Rightarrow> (string \<times> string \<times> string \<times> char) option" where
  "findSGR [] = None"
| "findSGR (c # cs) =
     (case matchSGRAt (c # cs) of
        Some m \<Rightarrow> Some m
      | None \<Rightarrow> findSGR cs)"

text \<open>
  \<^verbatim>\<open>strconv.Atoi\<close> with its error dropped, on a 64-bit platform: an optional sign
  and decimal digits; 0 on a syntax error, the nearest bound on a range error.
\<close>

definition decimalValue :: "string \<Rightarrow> int" where
  "decimalValue ds = foldl (\<lambda>n c. 10 * n + (of_char c - 48)) 0 ds"

definition Atoi :: "string \<Rightarrow> int" where
  "Atoi s =
     (let neg = (s \<noteq> [] \<and> hd s = CHR ''-'');
          ds = (if s \<noteq> [] \<and> (hd s = CHR ''-'' \<or> hd s = CHR ''+'') then tl s else s)
      in if ds = [] \<or> \<not> list_all isDigit ds then 0
         else if neg then (if decimalValue ds > 2 ^ 63 then - (2 ^ 63) else - decimalValue ds)
         else (if decimalValue ds > 2 ^ 63 - 1 then 2 ^ 63 - 1 else decimalValue ds))"

text \<open>
  \<^verbatim>\<open>parseSGRMouseEvent\<close>. \<^verbatim>\<open>buf[3:]\<close> panics on a buffer shorter than three
  bytes.
\<close>

definition parseSGRMouseEvent :: "string \<Rightarrow> panic + Event" where
  "parseSGRMouseEvent buf =
     (if length buf < 3 then Inl SliceBoundsOutOfRange
      else
        (case findSGR (drop 3 buf) of
           None \<Rightarrow> Inr (UnknownCsiEvent buf)
         | Some (mb, px, py, t) \<Rightarrow>
           let b = Atoi mb;
               release = (t = CHR ''m'');
               (m, btn, _, isMotion) = parseMouseButton b;
               x = Atoi px - 1;
               y = Atoi py - 1
           in if \<not> isMotion \<and> \<not> isWheel btn \<and> release
              then Inr (MouseUpEvent \<lparr>X = x, Y = y, Button = btn, MouseMod = m\<rparr>)
              else if isMotion
              then Inr (MouseMoveEvent \<lparr>X = x, Y = y, Button = btn, MouseMod = m\<rparr>)
              else Inr (MouseDownEvent \<lparr>X = x, Y = y, Button = btn, MouseMod = m\<rparr>)))"


section \<open>XTerm modifyOtherKeys\<close>

text \<open>
  Modelled from the spec: package \<^verbatim>\<open>ansi\<close> is not part of the sources at hand; its
  constants \<^verbatim>\<open>BS\<close>, \<^verbatim>\<open>HT\<close>, \<^verbatim>\<open>CR\<close>, \<^verbatim>\<open>ESC\<close>, \<^verbatim>\<open>DEL\<close> are the ASCII codes
  8, 9, 13, 27 and 127 (Section 4.1, Phase 3).
\<close>

definition ansi_BS :: int where "ansi_BS = 8"
definition ansi_HT :: int where "ansi_HT = 9"
definition ansi_CR :: int where "ansi_CR = 13"
definition ansi_ESC :: int where "ansi_ESC = 27"
definition ansi_DEL :: int where "ansi_DEL = 127"

text \<open>The Go map \<^verbatim>\<open>modifyOtherKeys\<close>, as the list of its entries; a lookup is \<^const>\<open>map_of\<close>.\<close>

definition modifyOtherKeys :: "(int \<times> Key) list" where
  "modifyOtherKeys =
     [(ansi_BS, zeroKey\<lparr>Sym := KeyBackspace\<rparr>),
      (ansi_HT, zeroKey\<lparr>Sym := KeyTab\<rparr>),
      (ansi_CR, zeroKey\<lparr>Sym := KeyEnter\<rparr>),
      (ansi_ESC, zeroKey\<lparr>Sym := KeyEscape\<rparr>),
      (ansi_DEL, zeroKey\<lparr>Sym := KeyBackspace\<rparr>)]"

text \<open>
  \<^verbatim>\<open>parseXTermModifyOtherKeys\<close>, with \<^verbatim>\<open>uint\<close> 64 bits wide. \<^verbatim>\<open>params[1][0]\<close> and
  then \<^verbatim>\<open>params[2][0]\<close> are read first; each read panics when the index is out of
  range. The conversions \<^verbatim>\<open>Mod(...)\<close> and \<^verbatim>\<open>rune(...)\<close> keep the low bits.
\<close>

definition parseXTermModifyOtherKeys :: "64 word list list \<Rightarrow> panic + Event" where
  "parseXTermModifyOtherKeys params =
     (if length params \<le> 1 \<or> params ! 1 = [] then Inl IndexOutOfRange
      else if length params \<le> 2 \<or> params ! 2 = [] then Inl IndexOutOfRange
      else
        let m = (ucast (params ! 1 ! 0 - 1) :: Mod);
            r = (ucast (params ! 2 ! 0) :: rune)
        in (case map_of modifyOtherKeys (sint r) of
              Some k \<Rightarrow> Inr (KeyDownEvent (k\<lparr>Mod := m\<rparr>))
            | None \<Rightarrow> Inr (KeyDownEvent (zeroKey\<lparr>Mod := m, Rune := r\<rparr>))))"

section \<open>Windows console key records\<close>

text \<open>
  The types and constants of the console library are those of the Windows API:
  a virtual-key code is 16 bits, a control-key state 32 bits, and \<^verbatim>\<open>Contains\<close>
  tells whether the state has one of the given bits (the caller passes the left and
  the right Ctrl bit together to ask whether Ctrl is held).
\<close>

type_synonym VirtualKeyCode = "16 word"
type_synonym ControlKeyState = "32 word"

definition RIGHT_ALT_PRESSED :: ControlKeyState where "RIGHT_ALT_PRESSED = 0x0001"
definition LEFT_ALT_PRESSED :: ControlKeyState where "LEFT_ALT_PRESSED = 0x0002"
definition RIGHT_CTRL_PRESSED :: ControlKeyState where "RIGHT_CTRL_PRESSED = 0x0004"
definition LEFT_CTRL_PRESSED :: ControlKeyState where "LEFT_CTRL_PRESSED = 0x0008"
definition SHIFT_PRESSED :: ControlKeyState where "SHIFT_PRESSED = 0x0010"
definition NUMLOCK_ON :: ControlKeyState where "NUMLOCK_ON = 0x0020"
definition SCROLLLOCK_ON :: ControlKeyState where "SCROLLLOCK_ON = 0x0040"
definition CAPSLOCK_ON :: ControlKeyState where "CAPSLOCK_ON = 0x0080"

definition Contains :: "ControlKeyState \<Rightarrow> ControlKeyState \<Rightarrow> bool" where
  "Contains cks state = (cks AND state > 0)"

definition VK_BACK :: VirtualKeyCode where "VK_BACK = 0x08"
definition VK_TAB :: VirtualKeyCode where "VK_TAB = 0x09"
definition VK_RETURN :: VirtualKeyCode where "VK_RETURN = 0x0D"
definition VK_ESCAPE :: VirtualKeyCode where "VK_ESCAPE = 0x1B"
definition VK_SPACE :: VirtualKeyCode where "VK_SPACE = 0x20"
definition VK_PRIOR :: VirtualKeyCode where "VK_PRIOR = 0x21"
definition VK_NEXT :: VirtualKeyCode where "VK_NEXT = 0x22"
definition VK_END :: VirtualKeyCode where "VK_END = 0x23"
definition VK_HOME :: VirtualKeyCode where "VK_HOME = 0x24"
definition VK_LEFT :: VirtualKeyCode where "VK_LEFT = 0x25"
definition VK_UP :: VirtualKeyCode where "VK_UP = 0x26"
definition VK_RIGHT :: VirtualKeyCode where "VK_RIGHT = 0x27"
definition VK_DOWN :: VirtualKeyCode where "VK_DOWN = 0x28"
definition VK_SELECT :: VirtualKeyCode where "VK_SELECT = 0x29"
definition VK_SNAPSHOT :: VirtualKeyCode where "VK_SNAPSHOT = 0x2C"
definition VK_INSERT :: VirtualKeyCode where "VK_INSERT = 0x2D"
definition VK_DELETE :: VirtualKeyCode where "VK_DELETE = 0x2E"
definition VK_LWIN :: VirtualKeyCode where "VK_LWIN = 0x5B"
definition VK_RWIN :: VirtualKeyCode where "VK_RWIN = 0x5C"
definition VK_APPS :: VirtualKeyCode where "VK_APPS = 0x5D"
definition VK_NUMPAD0 :: VirtualKeyCode where "VK_NUMPAD0 = 0x60"
definition VK_NUMPAD1 :: VirtualKeyCode where "VK_NUMPAD1 = 0x61"
definition VK_NUMPAD2 :: VirtualKeyCode where "VK_NUMPAD2 = 0x62"
definition VK_NUMPAD3 :: VirtualKeyCode where "VK_NUMPAD3 = 0x63"
definition VK_NUMPAD4 :: VirtualKeyCode where "VK_NUMPAD4 = 0x64"
definition VK_NUMPAD5 :: VirtualKeyCode where "VK_NUMPAD5 = 0x65"
definition VK_NUMPAD6 :: VirtualKeyCode where "VK_NUMPAD6 = 0x66"
definition VK_NUMPAD7 :: VirtualKeyCode where "VK_NUMPAD7 = 0x67"
definition VK_NUMPAD8 :: VirtualKeyCode where "VK_NUMPAD8 = 0x68"
definition VK_NUMPAD9 :: VirtualKeyCode where "VK_NUMPAD9 = 0x69"
definition VK_MULTIPLY :: VirtualKeyCode where "VK_MULTIPLY = 0x6A"
definition VK_ADD :: VirtualKeyCode where "VK_ADD = 0x6B"
definition VK_SEPARATOR :: VirtualKeyCode where "VK_SEPARATOR = 0x6C"
definition VK_SUBTRACT :: VirtualKeyCode where "VK_SUBTRACT = 0x6D"
definition VK_DECIMAL :: VirtualKeyCode where "VK_DECIMAL = 0x6E"
definition VK_DIVIDE :: VirtualKeyCode where "VK_DIVIDE = 0x6F"
definition VK_F1 :: VirtualKeyCode where "VK_F1 = 0x70"
definition VK_F2 :: VirtualKeyCode where "VK_F2 = 0x71"
definition VK_F3 :: VirtualKeyCode where "VK_F3 = 0x72"
definition VK_F4 :: VirtualKeyCode where "VK_F4 = 0x73"
definition VK_F5 :: VirtualKeyCode where "VK_F5 = 0x74"
definition VK_F6 :: VirtualKeyCode where "VK_F6 = 0x75"
definition VK_F7 :: VirtualKeyCode where "VK_F7 = 0x76"
definition VK_F8 :: VirtualKeyCode where "VK_F8 = 0x77"
definition VK_F9 :: VirtualKeyCode where "VK_F9 = 0x78"
definition VK_F10 :: VirtualKeyCode where "VK_F10 = 0x79"
definition VK_F11 :: VirtualKeyCode where "VK_F11 = 0x7A"
definition VK_F12 :: VirtualKeyCode where "VK_F12 = 0x7B"
definition VK_F13 :: VirtualKeyCode where "VK_F13 = 0x7C"
definition VK_F14 :: VirtualKeyCode where "VK_F14 = 0x7D"
definition VK_F15 :: VirtualKeyCode where "VK_F15 = 0x7E"
definition VK_F16 :: VirtualKeyCode where "VK_F16 = 0x7F"
definition VK_F17 :: VirtualKeyCode where "VK_F17 = 0x80"
definition VK_F18 :: VirtualKeyCode where "VK_F18 = 0x81"
definition VK_F19 :: VirtualKeyCode where "VK_F19 = 0x82"
definition VK_F20 :: VirtualKeyCode where "VK_F20 = 0x83"
definition VK_F21 :: VirtualKeyCode where "VK_F21 = 0x84"
definition VK_F22 :: VirtualKeyCode where "VK_F22 = 0x85"
definition VK_F23 :: VirtualKeyCode where "VK_F23 = 0x86"
definition VK_F24 :: VirtualKeyCode where "VK_F24 = 0x87"
definition VK_NUMLOCK :: VirtualKeyCode where "VK_NUMLOCK = 0x90"
definition VK_SCROLL :: VirtualKeyCode where "VK_SCROLL = 0x91"
definition VK_LSHIFT :: VirtualKeyCode where "VK_LSHIFT = 0xA0"
definition VK_RSHIFT :: VirtualKeyCode where "VK_RSHIFT = 0xA1"
definition VK_LCONTROL :: VirtualKeyCode where "VK_LCONTROL = 0xA2"
definition VK_RCONTROL :: VirtualKeyCode where "VK_RCONTROL = 0xA3"
definition VK_LMENU :: VirtualKeyCode where "VK_LMENU = 0xA4"
definition VK_RMENU :: VirtualKeyCode where "VK_RMENU = 0xA5"
definition VK_OEM_4 :: VirtualKeyCode where "VK_OEM_4 = 0xDB"

text \<open>The Go map \<^verbatim>\<open>vkKeyEvent\<close>, as the list of its entries.\<close>

definition vkKeyEvent :: "(VirtualKeyCode \<times> Key) list" where
  "vkKeyEvent =
     [(VK_RETURN, zeroKey\<lparr>Sym := KeyEnter\<rparr>),
      (VK_BACK, zeroKey\<lparr>Sym := KeyBackspace\<rparr>),
      (VK_TAB, zeroKey\<lparr>Sym := KeyTab\<rparr>),
      (VK_ESCAPE, zeroKey\<lparr>Sym := KeyEscape\<rparr>),
      (VK_SPACE, zeroKey\<lparr>Sym := KeySpace, Rune := runeOf (CHR '' '')\<rparr>),
      (VK_UP, zeroKey\<lparr>Sym := KeyUp\<rparr>),
      (VK_DOWN, zeroKey\<lparr>Sym := KeyDown\<rparr>),
      (VK_RIGHT, zeroKey\<lparr>Sym := KeyRight\<rparr>),
      (VK_LEFT, zeroKey\<lparr>Sym := KeyLeft\<rparr>),
      (VK_HOME, zeroKey\<lparr>Sym := KeyHome\<rparr>),
      (VK_END, zeroKey\<lparr>Sym := KeyEnd\<rparr>),
      (VK_PRIOR, zeroKey\<lparr>Sym := KeyPgUp\<rparr>),
      (VK_NEXT, zeroKey\<lparr>Sym := KeyPgDown\<rparr>),
      (VK_DELETE, zeroKey\<lparr>Sym := KeyDelete\<rparr>),
      (VK_SELECT, zeroKey\<lparr>Sym := KeySelect\<rparr>),
      (VK_SNAPSHOT, zeroKey\<lparr>Sym := KeyPrintScreen\<rparr>),
      (VK_INSERT, zeroKey\<lparr>Sym := KeyInsert\<rparr>),
      (VK_LWIN, zeroKey\<lparr>Sym := KeyLeftSuper\<rparr>),
      (VK_RWIN, zeroKey\<lparr>Sym := KeyRightSuper\<rparr>),
      (VK_APPS, zeroKey\<lparr>Sym := KeyMenu\<rparr>),
      (VK_NUMPAD0, zeroKey\<lparr>Sym := KeyKp0\<rparr>),
      (VK_NUMPAD1, zeroKey\<lparr>Sym := KeyKp1\<rparr>),
      (VK_NUMPAD2, zeroKey\<lparr>Sym := KeyKp2\<rparr>),
      (VK_NUMPAD3, zeroKey\<lparr>Sym := KeyKp3\<rparr>),
      (VK_NUMPAD4, zeroKey\<lparr>Sym := KeyKp4\<rparr>),
      (VK_NUMPAD5, zeroKey\<lparr>Sym := KeyKp5\<rparr>),
      (VK_NUMPAD6, zeroKey\<lparr>Sym := KeyKp6\<rparr>),
      (VK_NUMPAD7, zeroKey\<lparr>Sym := KeyKp7\<rparr>),
      (VK_NUMPAD8, zeroKey\<lparr>Sym := KeyKp8\<rparr>),
      (VK_NUMPAD9, zeroKey\<lparr>Sym := KeyKp9\<rparr>),
      (VK_MULTIPLY, zeroKey\<lparr>Sym := KeyKpMul\<rparr>),
      (VK_ADD, zeroKey\<lparr>Sym := KeyKpPlus\<rparr>),
      (VK_SEPARATOR, zeroKey\<lparr>Sym := KeyKpComma\<rparr>),
      (VK_SUBTRACT, zeroKey\<lparr>Sym := KeyKpMinus\<rparr>),
      (VK_DECIMAL, zeroKey\<lparr>Sym := KeyKpPeriod\<rparr>),
      (VK_DIVIDE, zeroKey\<lparr>Sym := KeyKpDiv\<rparr>),
      (VK_F1, zeroKey\<lparr>Sym := KeyF1\<rparr>),
      (VK_F2, zeroKey\<lparr>Sym := KeyF2\<rparr>),
      (VK_F3, zeroKey\<lparr>Sym := KeyF3\<rparr>),
      (VK_F4, zeroKey\<lparr>Sym := KeyF4\<rparr>),
      (VK_F5, zeroKey\<lparr>Sym := KeyF5\<rparr>),
      (VK_F6, zeroKey\<lparr>Sym := KeyF6\<rparr>),
      (VK_F7, zeroKey\<lparr>Sym := KeyF7\<rparr>),
      (VK_F8, zeroKey\<lparr>Sym := KeyF8\<rparr>),
      (VK_F9, zeroKey\<lparr>Sym := KeyF9\<rparr>),
      (VK_F10, zeroKey\<lparr>Sym := KeyF10\<rparr>),
      (VK_F11, zeroKey\<lparr>Sym := KeyF11\<rparr>),
      (VK_F12, zeroKey\<lparr>Sym := KeyF12\<rparr>),
      (VK_F13, zeroKey\<lparr>Sym := KeyF13\<rparr>),
      (VK_F14, zeroKey\<lparr>Sym := KeyF14\<rparr>),
      (VK_F15, zeroKey\<lparr>Sym := KeyF15\<rparr>),
      (VK_F16, zeroKey\<lparr>Sym := KeyF16\<rparr>),
      (VK_F17, zeroKey\<lparr>Sym := KeyF17\<rparr>),
      (VK_F18, zeroKey\<lparr>Sym := KeyF18\<rparr>),
      (VK_F19, zeroKey\<lparr>Sym := KeyF19\<rparr>),
      (VK_F20, zeroKey\<lparr>Sym := KeyF20\<rparr>),
      (VK_F21, zeroKey\<lparr>Sym := KeyF21\<rparr>),
      (VK_F22, zeroKey\<lparr>Sym := KeyF22\<rparr>),
      (VK_F23, zeroKey\<lparr>Sym := KeyF23\<rparr>),
      (VK_F24, zeroKey\<lparr>Sym := KeyF24\<rparr>),
      (VK_NUMLOCK, zeroKey\<lparr>Sym := KeyNumLock\<rparr>),
      (VK_SCROLL, zeroKey\<lparr>Sym := KeyScrollLock\<rparr>),
      (VK_LSHIFT, zeroKey\<lparr>Sym := KeyLeftShift\<rparr>),
      (VK_RSHIFT, zeroKey\<lparr>Sym := KeyRightShift\<rparr>),
      (VK_LCONTROL, zeroKey\<lparr>Sym := KeyLeftCtrl\<rparr>),
      (VK_RCONTROL, zeroKey\<lparr>Sym := KeyRightCtrl\<rparr>),
      (VK_LMENU, zeroKey\<lparr>Sym := KeyLeftAlt\<rparr>),
      (VK_RMENU, zeroKey\<lparr>Sym := KeyRightAlt\<rparr>),
      (VK_OEM_4, zeroKey\<lparr>Rune := runeOf (CHR ''['')\<rparr>)]"

text \<open>
  \<^verbatim>\<open>vkCtrlRune\<close>: the first \<^verbatim>\<open>switch\<close> is a lookup of the character among its
  case constants, the second one overrides the result for \<^verbatim>\<open>VK_OEM_4\<close>.
\<close>

definition ctrlRunes :: "(rune \<times> char) list" where
  "ctrlRunes =
     [(runeOf (CHR ''@''), CHR ''@''),
      (0x01, CHR ''a''), (0x02, CHR ''b''), (0x03, CHR ''c''), (0x04, CHR ''d''),
      (0x05, CHR ''e''), (0x06, CHR ''f''), (0x07, CHR ''g''), (0x08, CHR ''h''),
      (0x09, CHR ''i''), (0x0A, CHR ''j''), (0x0B, CHR ''k''), (0x0C, CHR ''l''),
      (0x0D, CHR ''m''), (0x0E, CHR ''n''), (0x0F, CHR ''o''), (0x10, CHR ''p''),
      (0x11, CHR ''q''), (0x12, CHR ''r''), (0x13, CHR ''s''), (0x14, CHR ''t''),
      (0x15, CHR ''u''), (0x16, CHR ''v''), (0x17, CHR ''w''), (0x18, CHR ''x''),
      (0x19, CHR ''y''), (0x1A, CHR ''z''), (0x1B, CHR '']''), (0x1C, CHR 0x5C),
      (0x1F, CHR ''_'')]"

definition vkCtrlRune :: "Key \<Rightarrow> rune \<Rightarrow> VirtualKeyCode \<Rightarrow> Key" where
  "vkCtrlRune k r kc =
     (let k = (case map_of ctrlRunes r of Some c \<Rightarrow> k\<lparr>Rune := runeOf c\<rparr> | None \<Rightarrow> k);
          k = (if kc = VK_OEM_4 then k\<lparr>Rune := runeOf (CHR ''['')\<rparr> else k)
      in k)"

text \<open>
  \<^verbatim>\<open>parseWin32InputKeyEvent\<close>. The second parameter is unused in the source. The
  statements are kept in the order of the source: the event \<open>e\<close> is built from
  \<open>k\<close> before \<^verbatim>\<open>k.IsRepeat\<close> is assigned, and it is replaced by a release event
  built from the updated \<open>k\<close> only when the record is no key press.
\<close>

definition parseWin32InputKeyEvent ::
  "VirtualKeyCode \<Rightarrow> VirtualKeyCode \<Rightarrow> rune \<Rightarrow> bool \<Rightarrow> ControlKeyState \<Rightarrow> 16 word \<Rightarrow> Event" where
  "parseWin32InputKeyEvent vkc unused r keyDown cks repeatCount =
     (let isCtrl = Contains cks (LEFT_CTRL_PRESSED OR RIGHT_CTRL_PRESSED);
          k = (case map_of vkKeyEvent vkc of
                 Some k \<Rightarrow> k
               | None \<Rightarrow> if isCtrl then vkCtrlRune zeroKey r vkc else zeroKey\<lparr>Rune := r\<rparr>);
          k = (if isCtrl then k\<lparr>Mod := Mod k OR Ctrl\<rparr> else k);
          k = (if Contains cks (LEFT_ALT_PRESSED OR RIGHT_ALT_PRESSED)
               then k\<lparr>Mod := Mod k OR Alt\<rparr> else k);
          k = (if Contains cks SHIFT_PRESSED then k\<lparr>Mod := Mod k OR Shift\<rparr> else k)
      in if Contains cks (NUMLOCK_ON OR CAPSLOCK_ON OR SCROLLLOCK_ON)
            \<and> Rune k = 0 \<and> Sym k = KeyNone
         then NilEvent
         else
           let e = KeyDownEvent k;
               k = k\<lparr>IsRepeat := (repeatCount > 1)\<rparr>;
               e = (if \<not> keyDown then KeyUpEvent k else e)
           in if repeatCount \<le> 1 then e
              else MultiEvent (replicate (unat repeatCount) e))"

section \<open>Color replies\<close>

text \<open>
  \<^verbatim>\<open>color.RGBA\<close> has four 8-bit channels; \<^verbatim>\<open>color.Black\<close> is a value of another
  color type, kept apart as \<open>Black\<close>.
\<close>

datatype Color = RGBA "8 word" "8 word" "8 word" "8 word" | Black

definition HasPrefix :: "string \<Rightarrow> string \<Rightarrow> bool" where
  "HasPrefix s p = (take (length p) s = p)"

text \<open>\<^verbatim>\<open>strings.Split(s, "/")\<close>: one more part than there are slashes.\<close>

fun splitSlash :: "string \<Rightarrow> string list" where
  "splitSlash [] = [[]]"
| "splitSlash (c # cs) =
     (if c = CHR ''/'' then [] # splitSlash cs
      else (case splitSlash cs of
              [] \<Rightarrow> [[c]]
            | p # ps \<Rightarrow> (c # p) # ps))"

text \<open>
  \<^verbatim>\<open>strconv.ParseUint(s, 16, 32)\<close> with its error dropped: 0 on a syntax error (an
  empty string, a byte that is no hexadecimal digit), the largest 32-bit value on a
  range error. The loop reads the bytes from the left and returns at the first
  error.
\<close>

definition hexDigit :: "char \<Rightarrow> nat option" where
  "hexDigit c =
     (let n = (of_char c :: nat)
      in if 48 \<le> n \<and> n \<le> 57 then Some (n - 48)
         else if 97 \<le> (n OR 32) \<and> (n OR 32) \<le> 122
         then (if (n OR 32) - 97 + 10 \<ge> 16 then None else Some ((n OR 32) - 97 + 10))
         else None)"

fun parseUintLoop :: "nat \<Rightarrow> string \<Rightarrow> nat" where
  "parseUintLoop n [] = n"
| "parseUintLoop n (c # cs) =
     (case hexDigit c of
        None \<Rightarrow> 0
      | Some d \<Rightarrow>
        if n \<ge> 2 ^ 60 then 2 ^ 32 - 1
        else if 16 * n + d > 2 ^ 32 - 1 then 2 ^ 32 - 1
        else parseUintLoop (16 * n + d) cs)"

definition ParseUint16_32 :: "string \<Rightarrow> 64 word" where
  "ParseUint16_32 s = (if s = [] then 0 else of_nat (parseUintLoop 0 s))"

definition xParseColor :: "string \<Rightarrow> Color" where
  "xParseColor s =
     (if HasPrefix s ''rgb:'' then
        (let parts = splitSlash (drop 4 s)
         in if length parts \<noteq> 3 then Black
            else
              let r = ParseUint16_32 (parts ! 0);
                  g = ParseUint16_32 (parts ! 1);
                  b = ParseUint16_32 (parts ! 2)
              in RGBA (ucast r) (ucast g) (ucast b) 255)
      else if HasPrefix s ''rgba:'' then
        (let parts = splitSlash (drop 5 s)
         in if length parts \<noteq> 4 then Black
            else
              let r = ParseUint16_32 (parts ! 0);
                  g = ParseUint16_32 (parts ! 1);
                  b = ParseUint16_32 (parts ! 2);
                  a = ParseUint16_32 (parts ! 3)
              in RGBA (ucast r) (ucast g) (ucast b) (ucast a))
      else Black)"

section \<open>Key table\<close>

text \<open>
  Modelled from the spec: the declarations of the capability flags are not part of the
  sources at hand. Section 3 of the specification makes them a bitset of ten named
  flags; the set of the flags that are on stands for it, and the test
  \<^verbatim>\<open>flags&FlagX != 0\<close> is \<open>FlagX \<in> flags\<close>.
\<close>

datatype Flag =
    FlagCtrlAt | FlagSpace | FlagCtrlI | FlagCtrlM | FlagCtrlOpenBracket
  | FlagBackspace | FlagFind | FlagSelect | FlagNoXTerm | FlagNoTerminfo

text \<open>
  The Go map \<^verbatim>\<open>d.table\<close>, a \<^verbatim>\<open>map[string]KeyDownEvent\<close>, is an association list
  with one entry per key, from the byte sequence to the key record of the event:
  \<open>tableSet\<close> is the assignment \<^verbatim>\<open>d.table[k] = v\<close>, \<open>tableGet\<close> the lookup,
  \<open>tableKeys\<close> the keys. Only the lookups and the set of keys are observed, never
  the order of the list.
\<close>

type_synonym table = "(string \<times> Key) list"

definition tableSet :: "string \<Rightarrow> Key \<Rightarrow> table \<Rightarrow> table" where
  "tableSet k v t = AList.update k v t"

definition tableGet :: "table \<Rightarrow> string \<Rightarrow> Key option" where
  "tableGet t k = map_of t k"

definition tableKeys :: "table \<Rightarrow> string list" where
  "tableKeys t = map fst t"

text \<open>\<^verbatim>\<open>strconv.Itoa\<close>: the decimal digits, after a minus sign for a negative number.\<close>

definition digitChar :: "nat \<Rightarrow> char" where
  "digitChar d = ''0123456789'' ! d"

fun itoaNat :: "nat \<Rightarrow> string" where
  "itoaNat n = (if n < 10 then [digitChar n] else itoaNat (n div 10) @ [digitChar (n mod 10)])"

declare itoaNat.simps [simp del]

definition Itoa :: "int \<Rightarrow> string" where
  "Itoa i = (if i < 0 then CHR ''-'' # itoaNat (nat (- i)) else itoaNat (nat i))"

text \<open>The events that depend on the flags, each assigned as in the source.\<close>

definition nulKey :: "Flag set \<Rightarrow> Key" where
  "nulKey flags =
     (let nul = zeroKey\<lparr>Sym := KeySpace, Mod := Ctrl\<rparr>;
          nul = (if FlagSpace \<in> flags then zeroKey\<lparr>Rune := runeOf (CHR '' ''), Mod := Ctrl\<rparr> else nul);
          nul = (if FlagCtrlAt \<in> flags then zeroKey\<lparr>Rune := runeOf (CHR ''@''), Mod := Ctrl\<rparr> else nul)
      in nul)"

definition tabKey :: "Flag set \<Rightarrow> Key" where
  "tabKey flags =
     (if FlagCtrlI \<in> flags then zeroKey\<lparr>Rune := runeOf (CHR ''i''), Mod := Ctrl\<rparr>
      else zeroKey\<lparr>Sym := KeyTab\<rparr>)"

definition enterKey :: "Flag set \<Rightarrow> Key" where
  "enterKey flags =
     (if FlagCtrlM \<in> flags then zeroKey\<lparr>Rune := runeOf (CHR ''m''), Mod := Ctrl\<rparr>
      else zeroKey\<lparr>Sym := KeyEnter\<rparr>)"

definition escKey :: "Flag set \<Rightarrow> Key" where
  "escKey flags =
     (if FlagCtrlOpenBracket \<in> flags then zeroKey\<lparr>Rune := runeOf (CHR ''[''), Mod := Ctrl\<rparr>
      else zeroKey\<lparr>Sym := KeyEscape\<rparr>)"

definition spKey :: "Flag set \<Rightarrow> Key" where
  "spKey flags =
     (if FlagSpace \<in> flags then zeroKey\<lparr>Rune := runeOf (CHR '' '')\<rparr>
      else zeroKey\<lparr>Sym := KeySpace, Rune := runeOf (CHR '' '')\<rparr>)"

definition delKey :: "Flag set \<Rightarrow> Key" where
  "delKey flags =
     (let del = zeroKey\<lparr>Sym := KeyBackspace\<rparr>
      in if FlagBackspace \<in> flags then del\<lparr>Sym := KeyDelete\<rparr> else del)"

definition findKey :: "Flag set \<Rightarrow> Key" where
  "findKey flags =
     (let find = zeroKey\<lparr>Sym := KeyHome\<rparr>
      in if FlagFind \<in> flags then find\<lparr>Sym := KeyFind\<rparr> else find)"

definition selKey :: "Flag set \<Rightarrow> Key" where
  "selKey flags =
     (let sel = zeroKey\<lparr>Sym := KeyEnd\<rparr>
      in if FlagSelect \<in> flags then sel\<lparr>Sym := KeySelect\<rparr> else sel)"

text \<open>
  The map literal assigned to \<^verbatim>\<open>d.table\<close> first: the C0 control characters, space
  and DEL, then the VT100/VT200 sequences. The keys \<^verbatim>\<open>string(byte(ansi.NUL))\<close> and
  so on are the one-byte strings of the ASCII codes.
\<close>

definition baseTable :: "Flag set \<Rightarrow> table" where
  "baseTable flags =
     [([CHR 0x00], nulKey flags),
      ([CHR 0x01], zeroKey\<lparr>Rune := runeOf (CHR ''a''), Mod := Ctrl\<rparr>),
      ([CHR 0x02], zeroKey\<lparr>Rune := runeOf (CHR ''b''), Mod := Ctrl\<rparr>),
      ([CHR 0x03], zeroKey\<lparr>Rune := runeOf (CHR ''c''), Mod := Ctrl\<rparr>),
      ([CHR 0x04], zeroKey\<lparr>Rune := runeOf (CHR ''d''), Mod := Ctrl\<rparr>),
      ([CHR 0x05], zeroKey\<lparr>Rune := runeOf (CHR ''e''), Mod := Ctrl\<rparr>),
      ([CHR 0x06], zeroKey\<lparr>Rune := runeOf (CHR ''f''), Mod := Ctrl\<rparr>),
      ([CHR 0x07], zeroKey\<lparr>Rune := runeOf (CHR ''g''), Mod := Ctrl\<rparr>),
      ([CHR 0x08], zeroKey\<lparr>Rune := runeOf (CHR ''h''), Mod := Ctrl\<rparr>),
      ([CHR 0x09], tabKey flags),
      ([CHR 0x0A], zeroKey\<lparr>Rune := runeOf (CHR ''j''), Mod := Ctrl\<rparr>),
      ([CHR 0x0B], zeroKey\<lparr>Rune := runeOf (CHR ''k''), Mod := Ctrl\<rparr>),
      ([CHR 0x0C], zeroKey\<lparr>Rune := runeOf (CHR ''l''), Mod := Ctrl\<rparr>),
      ([CHR 0x0D], enterKey flags),
      ([CHR 0x0E], zeroKey\<lparr>Rune := runeOf (CHR ''n''), Mod := Ctrl\<rparr>),
      ([CHR 0x0F], zeroKey\<lparr>Rune := runeOf (CHR ''o''), Mod := Ctrl\<rparr>),
      ([CHR 0x10], zeroKey\<lparr>Rune := runeOf (CHR ''p''), Mod := Ctrl\<rparr>),
      ([CHR 0x11], zeroKey\<lparr>Rune := runeOf (CHR ''q''), Mod := Ctrl\<rparr>),
      ([CHR 0x12], zeroKey\<lparr>Rune := runeOf (CHR ''r''), Mod := Ctrl\<rparr>),
      ([CHR 0x13], zeroKey\<lparr>Rune := runeOf (CHR ''s''), Mod := Ctrl\<rparr>),
      ([CHR 0x14], zeroKey\<lparr>Rune := runeOf (CHR ''t''), Mod := Ctrl\<rparr>),
      ([CHR 0x15], zeroKey\<lparr>Rune := runeOf (CHR ''u''), Mod := Ctrl\<rparr>),
      ([CHR 0x16], zeroKey\<lparr>Rune := runeOf (CHR ''v''), Mod := Ctrl\<rparr>),
      ([CHR 0x17], zeroKey\<lparr>Rune := runeOf (CHR ''w''), Mod := Ctrl\<rparr>),
      ([CHR 0x18], zeroKey\<lparr>Rune := runeOf (CHR ''x''), Mod := Ctrl\<rparr>),
      ([CHR 0x19], zeroKey\<lparr>Rune := runeOf (CHR ''y''), Mod := Ctrl\<rparr>),
      ([CHR 0x1A], zeroKey\<lparr>Rune := runeOf (CHR ''z''), Mod := Ctrl\<rparr>),
      ([CHR 0x1B], escKey flags),
      ([CHR 0x1C], zeroKey\<lparr>Rune := runeOf (CHR 0x5C), Mod := Ctrl\<rparr>),
      ([CHR 0x1D], zeroKey\<lparr>Rune := runeOf (CHR '']''), Mod := Ctrl\<rparr>),
      ([CHR 0x1E], zeroKey\<lparr>Rune := runeOf (CHR ''^''), Mod := Ctrl\<rparr>),
      ([CHR 0x1F], zeroKey\<lparr>Rune := runeOf (CHR ''_''), Mod := Ctrl\<rparr>),
      ([CHR 0x20], spKey flags),
      ([CHR 0x7F], delKey flags),
      (ESC # ''[Z'', zeroKey\<lparr>Sym := KeyTab, Mod := Shift\<rparr>),
      (ESC # ''[1~'', findKey flags),
      (ESC # ''[2~'', zeroKey\<lparr>Sym := KeyInsert\<rparr>),
      (ESC # ''[3~'', zeroKey\<lparr>Sym := KeyDelete\<rparr>),
      (ESC # ''[4~'', selKey flags),
      (ESC # ''[5~'', zeroKey\<lparr>Sym := KeyPgUp\<rparr>),
      (ESC # ''[6~'', zeroKey\<lparr>Sym := KeyPgDown\<rparr>),
      (ESC # ''[7~'', zeroKey\<lparr>Sym := KeyHome\<rparr>),
      (ESC # ''[8~'', zeroKey\<lparr>Sym := KeyEnd\<rparr>),
      (ESC # ''[A'', zeroKey\<lparr>Sym := KeyUp\<rparr>),
      (ESC # ''[B'', zeroKey\<lparr>Sym := KeyDown\<rparr>),
      (ESC # ''[C'', zeroKey\<lparr>Sym := KeyRight\<rparr>),
      (ESC # ''[D'', zeroKey\<lparr>Sym := KeyLeft\<rparr>),
      (ESC # ''[E'', zeroKey\<lparr>Sym := KeyBegin\<rparr>),
      (ESC # ''[F'', zeroKey\<lparr>Sym := KeyEnd\<rparr>),
      (ESC # ''[H'', zeroKey\<lparr>Sym := KeyHome\<rparr>),
      (ESC # ''[P'', zeroKey\<lparr>Sym := KeyF1\<rparr>),
      (ESC # ''[Q'', zeroKey\<lparr>Sym := KeyF2\<rparr>),
      (ESC # ''[R'', zeroKey\<lparr>Sym := KeyF3\<rparr>),
      (ESC # ''[S'', zeroKey\<lparr>Sym := KeyF4\<rparr>),
      (ESC # ''OA'', zeroKey\<lparr>Sym := KeyUp\<rparr>),
      (ESC # ''OB'', zeroKey\<lparr>Sym := KeyDown\<rparr>),
      (ESC # ''OC'', zeroKey\<lparr>Sym := KeyRight\<rparr>),
      (ESC # ''OD'', zeroKey\<lparr>Sym := KeyLeft\<rparr>),
      (ESC # ''OE'', zeroKey\<lparr>Sym := KeyBegin\<rparr>),
      (ESC # ''OF'', zeroKey\<lparr>Sym := KeyEnd\<rparr>),
      (ESC # ''OH'', zeroKey\<lparr>Sym := KeyHome\<rparr>),
      (ESC # ''OP'', zeroKey\<lparr>Sym := KeyF1\<rparr>),
      (ESC # ''OQ'', zeroKey\<lparr>Sym := KeyF2\<rparr>),
      (ESC # ''OR'', zeroKey\<lparr>Sym := KeyF3\<rparr>),
      (ESC # ''OS'', zeroKey\<lparr>Sym := KeyF4\<rparr>),
      (ESC # ''OM'', zeroKey\<lparr>Sym := KeyKpEnter\<rparr>),
      (ESC # ''OX'', zeroKey\<lparr>Sym := KeyKpEqual\<rparr>),
      (ESC # ''Oj'', zeroKey\<lparr>Sym := KeyKpMul\<rparr>),
      (ESC # ''Ok'', zeroKey\<lparr>Sym := KeyKpPlus\<rparr>),
      (ESC # ''Ol'', zeroKey\<lparr>Sym := KeyKpComma\<rparr>),
      (ESC # ''Om'', zeroKey\<lparr>Sym := KeyKpMinus\<rparr>),
      (ESC # ''On'', zeroKey\<lparr>Sym := KeyKpPeriod\<rparr>),
      (ESC # ''Oo'', zeroKey\<lparr>Sym := KeyKpDiv\<rparr>),
      (ESC # ''Op'', zeroKey\<lparr>Sym := KeyKp0\<rparr>),
      (ESC # ''Oq'', zeroKey\<lparr>Sym := KeyKp1\<rparr>),
      (ESC # ''Or'', zeroKey\<lparr>Sym := KeyKp2\<rparr>),
      (ESC # ''Os'', zeroKey\<lparr>Sym := KeyKp3\<rparr>),
      (ESC # ''Ot'', zeroKey\<lparr>Sym := KeyKp4\<rparr>),
      (ESC # ''Ou'', zeroKey\<lparr>Sym := KeyKp5\<rparr>),
      (ESC # ''Ov'', zeroKey\<lparr>Sym := KeyKp6\<rparr>),
      (ESC # ''Ow'', zeroKey\<lparr>Sym := KeyKp7\<rparr>),
      (ESC # ''Ox'', zeroKey\<lparr>Sym := KeyKp8\<rparr>),
      (ESC # ''Oy'', zeroKey\<lparr>Sym := KeyKp9\<rparr>),
      (ESC # ''[11~'', zeroKey\<lparr>Sym := KeyF1\<rparr>),
      (ESC # ''[12~'', zeroKey\<lparr>Sym := KeyF2\<rparr>),
      (ESC # ''[13~'', zeroKey\<lparr>Sym := KeyF3\<rparr>),
      (ESC # ''[14~'', zeroKey\<lparr>Sym := KeyF4\<rparr>),
      (ESC # ''[15~'', zeroKey\<lparr>Sym := KeyF5\<rparr>),
      (ESC # ''[17~'', zeroKey\<lparr>Sym := KeyF6\<rparr>),
      (ESC # ''[18~'', zeroKey\<lparr>Sym := KeyF7\<rparr>),
      (ESC # ''[19~'', zeroKey\<lparr>Sym := KeyF8\<rparr>),
      (ESC # ''[20~'', zeroKey\<lparr>Sym := KeyF9\<rparr>),
      (ESC # ''[21~'', zeroKey\<lparr>Sym := KeyF10\<rparr>),
      (ESC # ''[23~'', zeroKey\<lparr>Sym := KeyF11\<rparr>),
      (ESC # ''[24~'', zeroKey\<lparr>Sym := KeyF12\<rparr>),
      (ESC # ''[25~'', zeroKey\<lparr>Sym := KeyF13\<rparr>),
      (ESC # ''[26~'', zeroKey\<lparr>Sym := KeyF14\<rparr>),
      (ESC # ''[28~'', zeroKey\<lparr>Sym := KeyF15\<rparr>),
      (ESC # ''[29~'', zeroKey\<lparr>Sym := KeyF16\<rparr>),
      (ESC # ''[31~'', zeroKey\<lparr>Sym := KeyF17\<rparr>),
      (ESC # ''[32~'', zeroKey\<lparr>Sym := KeyF18\<rparr>),
      (ESC # ''[33~'', zeroKey\<lparr>Sym := KeyF19\<rparr>),
      (ESC # ''[34~'', zeroKey\<lparr>Sym := KeyF20\<rparr>)]"

text \<open>The XTerm modifiers, in the order of the source.\<close>

definition modifiers :: "Mod list" where
  "modifiers =
     [Shift,
      Alt,
      Shift OR Alt,
      Ctrl,
      Shift OR Ctrl,
      Alt OR Ctrl,
      Shift OR Alt OR Ctrl,
      Meta,
      Meta OR Shift,
      Meta OR Alt,
      Meta OR Shift OR Alt,
      Meta OR Ctrl,
      Meta OR Shift OR Ctrl,
      Meta OR Alt OR Ctrl,
      Meta OR Shift OR Alt OR Ctrl]"

text \<open>The maps of function keys the loops range over, as the lists of their entries.\<close>

definition csiFuncKeys :: "table" where
  "csiFuncKeys =
     [(''A'', zeroKey\<lparr>Sym := KeyUp\<rparr>),
      (''B'', zeroKey\<lparr>Sym := KeyDown\<rparr>),
      (''C'', zeroKey\<lparr>Sym := KeyRight\<rparr>),
      (''D'', zeroKey\<lparr>Sym := KeyLeft\<rparr>),
      (''E'', zeroKey\<lparr>Sym := KeyBegin\<rparr>),
      (''F'', zeroKey\<lparr>Sym := KeyEnd\<rparr>),
      (''H'', zeroKey\<lparr>Sym := KeyHome\<rparr>),
      (''P'', zeroKey\<lparr>Sym := KeyF1\<rparr>),
      (''Q'', zeroKey\<lparr>Sym := KeyF2\<rparr>),
      (''R'', zeroKey\<lparr>Sym := KeyF3\<rparr>),
      (''S'', zeroKey\<lparr>Sym := KeyF4\<rparr>)]"

definition ss3FuncKeys :: "table" where
  "ss3FuncKeys =
     [(''M'', zeroKey\<lparr>Sym := KeyKpEnter\<rparr>),
      (''X'', zeroKey\<lparr>Sym := KeyKpEqual\<rparr>),
      (''j'', zeroKey\<lparr>Sym := KeyKpMul\<rparr>),
      (''k'', zeroKey\<lparr>Sym := KeyKpPlus\<rparr>),
      (''l'', zeroKey\<lparr>Sym := KeyKpComma\<rparr>),
      (''m'', zeroKey\<lparr>Sym := KeyKpMinus\<rparr>),
      (''n'', zeroKey\<lparr>Sym := KeyKpPeriod\<rparr>),
      (''o'', zeroKey\<lparr>Sym := KeyKpDiv\<rparr>),
      (''p'', zeroKey\<lparr>Sym := KeyKp0\<rparr>),
      (''q'', zeroKey\<lparr>Sym := KeyKp1\<rparr>),
      (''r'', zeroKey\<lparr>Sym := KeyKp2\<rparr>),
      (''s'', zeroKey\<lparr>Sym := KeyKp3\<rparr>),
      (''t'', zeroKey\<lparr>Sym := KeyKp4\<rparr>),
      (''u'', zeroKey\<lparr>Sym := KeyKp5\<rparr>),
      (''v'', zeroKey\<lparr>Sym := KeyKp6\<rparr>),
      (''w'', zeroKey\<lparr>Sym := KeyKp7\<rparr>),
      (''x'', zeroKey\<lparr>Sym := KeyKp8\<rparr>),
      (''y'', zeroKey\<lparr>Sym := KeyKp9\<rparr>)]"

definition csiTildeKeys :: "Flag set \<Rightarrow> table" where
  "csiTildeKeys flags =
     [(''1'', findKey flags),
      (''2'', zeroKey\<lparr>Sym := KeyInsert\<rparr>),
      (''3'', zeroKey\<lparr>Sym := KeyDelete\<rparr>),
      (''4'', selKey flags),
      (''5'', zeroKey\<lparr>Sym := KeyPgUp\<rparr>),
      (''6'', zeroKey\<lparr>Sym := KeyPgDown\<rparr>),
      (''7'', zeroKey\<lparr>Sym := KeyHome\<rparr>),
      (''8'', zeroKey\<lparr>Sym := KeyEnd\<rparr>),
      (''11'', zeroKey\<lparr>Sym := KeyF1\<rparr>),
      (''12'', zeroKey\<lparr>Sym := KeyF2\<rparr>),
      (''13'', zeroKey\<lparr>Sym := KeyF3\<rparr>),
      (''14'', zeroKey\<lparr>Sym := KeyF4\<rparr>),
      (''15'', zeroKey\<lparr>Sym := KeyF5\<rparr>),
      (''17'', zeroKey\<lparr>Sym := KeyF6\<rparr>),
      (''18'', zeroKey\<lparr>Sym := KeyF7\<rparr>),
      (''19'', zeroKey\<lparr>Sym := KeyF8\<rparr>),
      (''20'', zeroKey\<lparr>Sym := KeyF9\<rparr>),
      (''21'', zeroKey\<lparr>Sym := KeyF10\<rparr>),
      (''23'', zeroKey\<lparr>Sym := KeyF11\<rparr>),
      (''24'', zeroKey\<lparr>Sym := KeyF12\<rparr>),
      (''25'', zeroKey\<lparr>Sym := KeyF13\<rparr>),
      (''26'', zeroKey\<lparr>Sym := KeyF14\<rparr>),
      (''28'', zeroKey\<lparr>Sym := KeyF15\<rparr>),
      (''29'', zeroKey\<lparr>Sym := KeyF16\<rparr>),
      (''31'', zeroKey\<lparr>Sym := KeyF17\<rparr>),
      (''32'', zeroKey\<lparr>Sym := KeyF18\<rparr>),
      (''33'', zeroKey\<lparr>Sym := KeyF19\<rparr>),
      (''34'', zeroKey\<lparr>Sym := KeyF20\<rparr>)]"

text \<open>
  The body of the loop over \<^verbatim>\<open>modifiers\<close>: four loops, each over a map that the
  loop does not change, each assigning one key of the table per entry. The keys one
  loop assigns are pairwise different, so the order in which the entries of the map
  are visited does not matter (\<open>set_loop_any_order\<close> below); the order of the list
  is taken.
\<close>

definition xtermKeys :: "Flag set \<Rightarrow> Mod \<Rightarrow> table \<Rightarrow> table" where
  "xtermKeys flags m t =
     (let xtermMod = Itoa (uint m + 1);
          t = fold (\<lambda>(k, v). tableSet (ESC # ''[1;'' @ xtermMod @ k) (v\<lparr>Mod := m\<rparr>))
                csiFuncKeys t;
          t = fold (\<lambda>(k, v). tableSet (ESC # ''O'' @ xtermMod @ k) (v\<lparr>Mod := m\<rparr>))
                ss3FuncKeys t;
          t = fold (\<lambda>(k, v). tableSet (ESC # ''['' @ k @ '';'' @ xtermMod @ ''~'') (v\<lparr>Mod := m\<rparr>))
                (csiTildeKeys flags) t;
          t = fold (\<lambda>(k, v). tableSet (ESC # ''[27;'' @ xtermMod @ '';'' @ Itoa k @ ''~'')
                               (v\<lparr>Mod := m\<rparr>))
                modifyOtherKeys t
      in t)"

text \<open>The URxvt keys: the assignments of the source, in its order.\<close>

definition urxvtArrowKeys :: "table" where
  "urxvtArrowKeys =
     [(ESC # ''[a'', zeroKey\<lparr>Sym := KeyUp, Mod := Shift\<rparr>),
      (ESC # ''[b'', zeroKey\<lparr>Sym := KeyDown, Mod := Shift\<rparr>),
      (ESC # ''[c'', zeroKey\<lparr>Sym := KeyRight, Mod := Shift\<rparr>),
      (ESC # ''[d'', zeroKey\<lparr>Sym := KeyLeft, Mod := Shift\<rparr>),
      (ESC # ''Oa'', zeroKey\<lparr>Sym := KeyUp, Mod := Ctrl\<rparr>),
      (ESC # ''Ob'', zeroKey\<lparr>Sym := KeyDown, Mod := Ctrl\<rparr>),
      (ESC # ''Oc'', zeroKey\<lparr>Sym := KeyRight, Mod := Ctrl\<rparr>),
      (ESC # ''Od'', zeroKey\<lparr>Sym := KeyLeft, Mod := Ctrl\<rparr>)]"

definition urxvtTildeKeys :: "string \<times> Key \<Rightarrow> table \<Rightarrow> table" where
  "urxvtTildeKeys =
     (\<lambda>(k, v) t.
        let key = v;
            key = key\<lparr>Mod := Shift\<rparr>;
            t = tableSet (ESC # ''['' @ k @ ''$'') key t;
            key = key\<lparr>Mod := Ctrl\<rparr>;
            t = tableSet (ESC # ''['' @ k @ ''^'') key t;
            key = key\<lparr>Mod := Shift OR Ctrl\<rparr>;
            t = tableSet (ESC # ''['' @ k @ ''@'') key t
        in t)"

definition urxvtFKeys :: "table" where
  "urxvtFKeys =
     [(ESC # ''[23$'', zeroKey\<lparr>Sym := KeyF11, Mod := Shift\<rparr>),
      (ESC # ''[24$'', zeroKey\<lparr>Sym := KeyF12, Mod := Shift\<rparr>),
      (ESC # ''[25$'', zeroKey\<lparr>Sym := KeyF13, Mod := Shift\<rparr>),
      (ESC # ''[26$'', zeroKey\<lparr>Sym := KeyF14, Mod := Shift\<rparr>),
      (ESC # ''[28$'', zeroKey\<lparr>Sym := KeyF15, Mod := Shift\<rparr>),
      (ESC # ''[29$'', zeroKey\<lparr>Sym := KeyF16, Mod := Shift\<rparr>),
      (ESC # ''[31$'', zeroKey\<lparr>Sym := KeyF17, Mod := Shift\<rparr>),
      (ESC # ''[32$'', zeroKey\<lparr>Sym := KeyF18, Mod := Shift\<rparr>),
      (ESC # ''[33$'', zeroKey\<lparr>Sym := KeyF19, Mod := Shift\<rparr>),
      (ESC # ''[34$'', zeroKey\<lparr>Sym := KeyF20, Mod := Shift\<rparr>),
      (ESC # ''[11^'', zeroKey\<lparr>Sym := KeyF1, Mod := Ctrl\<rparr>),
      (ESC # ''[12^'', zeroKey\<lparr>Sym := KeyF2, Mod := Ctrl\<rparr>),
      (ESC # ''[13^'', zeroKey\<lparr>Sym := KeyF3, Mod := Ctrl\<rparr>),
      (ESC # ''[14^'', zeroKey\<lparr>Sym := KeyF4, Mod := Ctrl\<rparr>),
      (ESC # ''[15^'', zeroKey\<lparr>Sym := KeyF5, Mod := Ctrl\<rparr>),
      (ESC # ''[17^'', zeroKey\<lparr>Sym := KeyF6, Mod := Ctrl\<rparr>),
      (ESC # ''[18^'', zeroKey\<lparr>Sym := KeyF7, Mod := Ctrl\<rparr>),
      (ESC # ''[19^'', zeroKey\<lparr>Sym := KeyF8, Mod := Ctrl\<rparr>),
      (ESC # ''[20^'', zeroKey\<lparr>Sym := KeyF9, Mod := Ctrl\<rparr>),
      (ESC # ''[21^'', zeroKey\<lparr>Sym := KeyF10, Mod := Ctrl\<rparr>),
      (ESC # ''[23^'', zeroKey\<lparr>Sym := KeyF11, Mod := Ctrl\<rparr>),
      (ESC # ''[24^'', zeroKey\<lparr>Sym := KeyF12, Mod := Ctrl\<rparr>),
      (ESC # ''[25^'', zeroKey\<lparr>Sym := KeyF13, Mod := Ctrl\<rparr>),
      (ESC # ''[26^'', zeroKey\<lparr>Sym := KeyF14, Mod := Ctrl\<rparr>),
      (ESC # ''[28^'', zeroKey\<lparr>Sym := KeyF15, Mod := Ctrl\<rparr>),
      (ESC # ''[29^'', zeroKey\<lparr>Sym := KeyF16, Mod := Ctrl\<rparr>),
      (ESC # ''[31^'', zeroKey\<lparr>Sym := KeyF17, Mod := Ctrl\<rparr>),
      (ESC # ''[32^'', zeroKey\<lparr>Sym := KeyF18, Mod := Ctrl\<rparr>),
      (ESC # ''[33^'', zeroKey\<lparr>Sym := KeyF19, Mod := Ctrl\<rparr>),
      (ESC # ''[34^'', zeroKey\<lparr>Sym := KeyF20, Mod := Ctrl\<rparr>),
      (ESC # ''[23@'', zeroKey\<lparr>Sym := KeyF11, Mod := Shift OR Ctrl\<rparr>),
      (ESC # ''[24@'', zeroKey\<lparr>Sym := KeyF12, Mod := Shift OR Ctrl\<rparr>),
      (ESC # ''[25@'', zeroKey\<lparr>Sym := KeyF13, Mod := Shift OR Ctrl\<rparr>),
      (ESC # ''[26@'', zeroKey\<lparr>Sym := KeyF14, Mod := Shift OR Ctrl\<rparr>),
      (ESC # ''[28@'', zeroKey\<lparr>Sym := KeyF15, Mod := Shift OR Ctrl\<rparr>),
      (ESC # ''[29@'', zeroKey\<lparr>Sym := KeyF16, Mod := Shift OR Ctrl\<rparr>),
      (ESC # ''[31@'', zeroKey\<lparr>Sym := KeyF17, Mod := Shift OR Ctrl\<rparr>),
      (ESC # ''[32@'', zeroKey\<lparr>Sym := KeyF18, Mod := Shift OR Ctrl\<rparr>),
      (ESC # ''[33@'', zeroKey\<lparr>Sym := KeyF19, Mod := Shift OR Ctrl\<rparr>),
      (ESC # ''[34@'', zeroKey\<lparr>Sym := KeyF20, Mod := Shift OR Ctrl\<rparr>)]"

text \<open>The table when the loop that registers the Alt combinations starts.\<close>

definition preAltTable :: "Flag set \<Rightarrow> table" where
  "preAltTable flags =
     (let t = baseTable flags;
          t = (if FlagNoXTerm \<notin> flags then fold (xtermKeys flags) modifiers t else t);
          t = fold (\<lambda>(k, v). tableSet k v) urxvtArrowKeys t;
          t = fold urxvtTildeKeys (csiTildeKeys flags) t;
          t = fold (\<lambda>(k, v). tableSet k v) urxvtFKeys t
      in t)"

text \<open>
  The loop \<^verbatim>\<open>for k, v := range d.table { v.Mod |= Alt; d.table["\x1b"+k] = v }\<close>
  assigns to the map it ranges over. Go leaves the order of a range over a map
  open, and an entry created during the iteration "may be produced during the
  iteration or may be skipped". So the keys the loop visits, in the order of the
  visits, are a parameter of the model: \<open>altPass order t\<close> runs the body for the keys
  of \<open>order\<close>, and \<open>rangeOrder t order\<close> says that \<open>order\<close> is a sequence of visits
  the language allows on the table \<open>t\<close>: no key is visited twice, every key of \<open>t\<close>
  is visited (none is removed), and each visited key is in the table when its visit
  starts.
\<close>

definition altStep :: "string \<Rightarrow> table \<Rightarrow> table" where
  "altStep k t =
     (case tableGet t k of
        None \<Rightarrow> t
      | Some v \<Rightarrow> tableSet (ESC # k) (v\<lparr>Mod := Mod v OR Alt\<rparr>) t)"

definition altPass :: "string list \<Rightarrow> table \<Rightarrow> table" where
  "altPass order t = fold altStep order t"

fun visitsPresent :: "table \<Rightarrow> string list \<Rightarrow> bool" where
  "visitsPresent t [] = True"
| "visitsPresent t (k # ks) = (k \<in> set (tableKeys t) \<and> visitsPresent (altStep k t) ks)"

definition rangeOrder :: "table \<Rightarrow> string list \<Rightarrow> bool" where
  "rangeOrder t order =
     (distinct order \<and> set (tableKeys t) \<subseteq> set order \<and> visitsPresent t order)"

text \<open>
  \<^verbatim>\<open>registerKeys\<close>. \<^verbatim>\<open>registerTerminfoKeys\<close> is not part of the sources at hand and
  is a parameter, as is the order of the visits of the Alt loop.
\<close>

definition registerKeys :: "(table \<Rightarrow> table) \<Rightarrow> Flag set \<Rightarrow> string list \<Rightarrow> table" where
  "registerKeys registerTerminfoKeys flags order =
     (let t = preAltTable flags;
          t = altPass order t;
          t = (if FlagNoTerminfo \<notin> flags then registerTerminfoKeys t else t)
      in t)"


text \<open>
  \<open>overlayKeeps f t k\<close>: the terminfo overlay \<open>f\<close>, run on the table \<open>t\<close>, leaves the
  entry of the key \<open>k\<close> as it is (it does not assign that key).
\<close>

definition overlayKeeps :: "(table \<Rightarrow> table) \<Rightarrow> table \<Rightarrow> string \<Rightarrow> bool" where
  "overlayKeeps registerTerminfoKeys t k = (tableGet (registerTerminfoKeys t) k = tableGet t k)"

text \<open>
  Two shapes of keys, for the statements below. \<open>keyStart k\<close>: the key is not empty
  and its first byte is a C0 control byte (ESC is one), the space or DEL.
  \<open>baseKey k\<close>: moreover, what follows the first byte does not start so.
\<close>

definition keyStart :: "string \<Rightarrow> bool" where
  "keyStart k = (k \<noteq> [] \<and> ((of_char (hd k) :: nat) \<le> 0x20 \<or> hd k = CHR 0x7F))"

definition baseKey :: "string \<Rightarrow> bool" where
  "baseKey k = (keyStart k \<and> \<not> keyStart (tl k))"

section \<open>Properties of the mouse decoders\<close>

lemmas MouseButton_defs =
  MouseButtonNone_def MouseButtonLeft_def MouseButtonMiddle_def MouseButtonRight_def
  MouseButtonWheelUp_def MouseButtonWheelDown_def MouseButtonWheelLeft_def
  MouseButtonWheelRight_def MouseButtonBackward_def MouseButtonForward_def
  MouseButton10_def MouseButton11_def

lemmas mouseBit_defs =
  bitShift_def bitAlt_def bitCtrl_def bitMotion_def bitWheel_def bitAdd_def bitsMask_def

lemmas parseMouseButton_defs =
  parseMouseButton_def mouseButtonRelease_def mouseModifiers_def isWheel_def

lemma low_two_bits: "0 \<le> (b::int) AND 3 \<and> b AND 3 \<le> 3"
  by (simp add: AND_upper2')

text \<open>
  C10. A button code with both the additional-button bit and the wheel bit selects one
  of Backward, Forward, Button10, Button11 by its low two bits, and never a wheel
  button: the test of bit 0x80 comes first.
\<close>

theorem parseMouseButton_additional_before_wheel:
  assumes "b AND bitAdd \<noteq> 0" and "b AND bitWheel \<noteq> 0"
  shows "fst (snd (parseMouseButton b)) = MouseButtonBackward + (b AND bitsMask)
     \<and> fst (snd (parseMouseButton b))
         \<in> {MouseButtonBackward, MouseButtonForward, MouseButton10, MouseButton11}
     \<and> \<not> isWheel (fst (snd (parseMouseButton b)))"
proof -
  have r: "0 \<le> b AND 3 \<and> b AND 3 \<le> 3" by (rule low_two_bits)
  have btn: "fst (snd (parseMouseButton b)) = MouseButtonBackward + (b AND 3)"
    using assms(1)
    by (simp add: parseMouseButton_def mouseButtonRelease_def bitsMask_def Let_def
        split: prod.splits)
  have "b AND 3 = 0 \<or> b AND 3 = 1 \<or> b AND 3 = 2 \<or> b AND 3 = 3" using r by arith
  then show ?thesis unfolding btn bitsMask_def using r
    by (auto simp: MouseButton_defs isWheel_def)
qed

theorem parseMouseButton_additional_before_wheel_witness:
  "(0xC1 :: int) AND bitAdd \<noteq> 0 \<and> (0xC1 :: int) AND bitWheel \<noteq> 0
   \<and> fst (snd (parseMouseButton 0xC1)) = MouseButtonForward
   \<and> \<not> isWheel (fst (snd (parseMouseButton 0xC1)))"
  using parseMouseButton_additional_before_wheel [of "0xC1"]
  by (simp add: parseMouseButton_defs mouseBit_defs MouseButton_defs)



lemma digitRun_append:
  assumes "ds \<noteq> []" "list_all isDigit ds" "\<not> isDigit c"
  shows "digitRun (ds @ c # rest) = Some (ds, c # rest)"
proof -
  have all: "\<And>x. x \<in> set ds \<Longrightarrow> isDigit x" using assms(2) by (simp add: list_all_iff)
  have "takeWhile isDigit (ds @ c # rest) = ds"
    using all assms(3) by (simp add: takeWhile_append2)
  moreover have "dropWhile isDigit (ds @ c # rest) = c # rest"
    using all assms(3) by (simp add: dropWhile_append2)
  ultimately show ?thesis using assms(1) by (simp add: digitRun_def)
qed

lemma matchSGRAt_wellformed:
  assumes "mb \<noteq> []" "list_all isDigit mb" "px \<noteq> []" "list_all isDigit px"
    "py \<noteq> []" "list_all isDigit py" "t = CHR ''M'' \<or> t = CHR ''m''"
  shows "matchSGRAt (mb @ CHR '';'' # px @ CHR '';'' # py @ t # rest) = Some (mb, px, py, t)"
proof -
  have semi: "\<not> isDigit (CHR '';'')" by (simp add: isDigit_def)
  have fin: "\<not> isDigit t" using assms(7) by (auto simp: isDigit_def)
  have 1: "digitRun (mb @ CHR '';'' # px @ CHR '';'' # py @ t # rest)
           = Some (mb, CHR '';'' # px @ CHR '';'' # py @ t # rest)"
    by (rule digitRun_append [OF assms(1,2) semi])
  have 2: "digitRun (px @ CHR '';'' # py @ t # rest) = Some (px, CHR '';'' # py @ t # rest)"
    by (rule digitRun_append [OF assms(3,4) semi])
  have 3: "digitRun (py @ t # rest) = Some (py, t # rest)"
    by (rule digitRun_append [OF assms(5,6) fin])
  show ?thesis using assms(7) by (simp add: matchSGRAt_def 1 2 3)
qed

lemma findSGR_wellformed:
  assumes "mb \<noteq> []" "list_all isDigit mb" "px \<noteq> []" "list_all isDigit px"
    "py \<noteq> []" "list_all isDigit py" "t = CHR ''M'' \<or> t = CHR ''m''"
  shows "findSGR (mb @ CHR '';'' # px @ CHR '';'' # py @ t # rest) = Some (mb, px, py, t)"
proof -
  obtain c cs where mb: "mb = c # cs" using assms(1) by (cases mb) auto
  have "matchSGRAt ((c # cs) @ CHR '';'' # px @ CHR '';'' # py @ t # rest)
        = Some (c # cs, px, py, t)"
    using matchSGRAt_wellformed [OF assms] by (simp add: mb)
  then show ?thesis by (simp add: mb)
qed

lemma wheel_button:
  assumes "b AND bitWheel \<noteq> 0" "b AND bitAdd = 0"
  shows "parseMouseButton b =
     (mouseModifiers b, MouseButtonWheelUp + (b AND bitsMask), False, False)"
    and "isWheel (MouseButtonWheelUp + (b AND bitsMask))"
proof -
  have r: "0 \<le> b AND 3 \<and> b AND 3 \<le> 3" by (rule low_two_bits)
  then show w: "isWheel (MouseButtonWheelUp + (b AND bitsMask))"
    by (simp add: isWheel_def MouseButton_defs bitsMask_def)
  then show "parseMouseButton b =
     (mouseModifiers b, MouseButtonWheelUp + (b AND bitsMask), False, False)"
    using assms by (simp add: parseMouseButton_def mouseButtonRelease_def)
qed

lemmas sgr_eval_defs =
  parseSGRMouseEvent_def matchSGRAt_def digitRun_def isDigit_def Atoi_def decimalValue_def
  parseMouseButton_defs mouseBit_defs MouseButton_defs Let_def

text \<open>
  C3, as the claim states it, fails: the button code 192 has the wheel bit 0x40 and
  the additional-button bit 0x80, it decodes to the Backward button, and the SGR
  sequence \<^verbatim>\<open>ESC [ < 192 ; 1 ; 1 m\<close> is a release of it.
\<close>

theorem parseSGRMouseEvent_wheel_bit_release:
  "Atoi ''192'' AND bitWheel \<noteq> 0
   \<and> parseSGRMouseEvent (ESC # ''[<192;1;1m'') =
       Inr (MouseUpEvent \<lparr>X = 0, Y = 0, Button = MouseButtonBackward, MouseMod = 0\<rparr>)"
  by (simp add: sgr_eval_defs)

text \<open>
  C3, amended. For every SGR mouse sequence \<^verbatim>\<open>ESC [ < b ; x ; y\<close> ended by \<^verbatim>\<open>M\<close> or
  \<^verbatim>\<open>m\<close> (b, x, y non-empty runs of decimal digits) whose button code has the wheel
  bit 0x40 and not the additional-button bit 0x80, \<^verbatim>\<open>parseSGRMouseEvent\<close> returns a
  MouseDown event of the wheel button the low two bits select, at the coordinates
  less one, whichever the final byte is.
\<close>

theorem parseSGRMouseEvent_wheel_down:
  assumes "mb \<noteq> []" "list_all isDigit mb" "px \<noteq> []" "list_all isDigit px"
    "py \<noteq> []" "list_all isDigit py" "t = CHR ''M'' \<or> t = CHR ''m''"
    "Atoi mb AND bitWheel \<noteq> 0" "Atoi mb AND bitAdd = 0"
  shows "parseSGRMouseEvent (ESC # ''[<'' @ mb @ '';'' @ px @ '';'' @ py @ [t]) =
     Inr (MouseDownEvent \<lparr>X = Atoi px - 1, Y = Atoi py - 1,
            Button = MouseButtonWheelUp + (Atoi mb AND bitsMask),
            MouseMod = mouseModifiers (Atoi mb)\<rparr>)"
proof -
  have f: "findSGR (mb @ CHR '';'' # px @ CHR '';'' # py @ t # []) = Some (mb, px, py, t)"
    by (rule findSGR_wellformed [OF assms(1-7)])
  show ?thesis
    using f wheel_button(2) [OF assms(8,9)]
    by (simp add: parseSGRMouseEvent_def wheel_button(1) [OF assms(8,9)])
qed

theorem parseSGRMouseEvent_wheel_down_witness:
  "list_all isDigit ''65'' \<and> list_all isDigit ''10'' \<and> list_all isDigit ''5''
   \<and> Atoi ''65'' AND bitWheel \<noteq> 0 \<and> Atoi ''65'' AND bitAdd = 0
   \<and> parseSGRMouseEvent (ESC # ''[<'' @ ''65'' @ '';'' @ ''10'' @ '';'' @ ''5'' @ [CHR ''m'']) =
       Inr (MouseDownEvent \<lparr>X = 9, Y = 4, Button = MouseButtonWheelDown, MouseMod = 0\<rparr>)"
proof -
  have a: "Atoi ''65'' = 65" "Atoi ''10'' = 10" "Atoi ''5'' = 5"
    by (simp_all add: Atoi_def decimalValue_def isDigit_def)
  have d: "list_all isDigit ''65''" "list_all isDigit ''10''" "list_all isDigit ''5''"
    by (simp_all add: isDigit_def)
  have b: "Atoi ''65'' AND bitWheel \<noteq> 0" "Atoi ''65'' AND bitAdd = 0"
    by (simp_all add: a mouseBit_defs)
  have "parseSGRMouseEvent (ESC # ''[<'' @ ''65'' @ '';'' @ ''10'' @ '';'' @ ''5'' @ [CHR ''m'']) =
     Inr (MouseDownEvent \<lparr>X = Atoi ''10'' - 1, Y = Atoi ''5'' - 1,
            Button = MouseButtonWheelUp + (Atoi ''65'' AND bitsMask),
            MouseMod = mouseModifiers (Atoi ''65'')\<rparr>)"
    by (rule parseSGRMouseEvent_wheel_down [OF _ d(1) _ d(2) _ d(3) _ b]) simp_all
  then have "parseSGRMouseEvent (ESC # ''[<'' @ ''65'' @ '';'' @ ''10'' @ '';'' @ ''5'' @ [CHR ''m'']) =
       Inr (MouseDownEvent \<lparr>X = 9, Y = 4, Button = MouseButtonWheelDown, MouseMod = 0\<rparr>)"
    by (simp add: a mouseModifiers_def mouseBit_defs MouseButton_defs)
  then show ?thesis using d b by blast
qed

section \<open>Properties of the modifyOtherKeys decoder\<close>

lemmas ansi_defs = ansi_BS_def ansi_HT_def ansi_CR_def ansi_ESC_def ansi_DEL_def

text \<open>
  C9. \<^verbatim>\<open>parseXTermModifyOtherKeys\<close> returns (does not panic) exactly when there are
  at least three parameter groups of which the second and the third are not empty.
  It then returns a key-down event whose modifier set is the first value of the
  second group less one (as a modifier bitset), and, when the code, the first value of
  the third group as a rune, is not in the \<^verbatim>\<open>modifyOtherKeys\<close> table, the event
  carries that rune as its character and no symbol.
\<close>

theorem parseXTermModifyOtherKeys_total_keydown:
  "((\<exists>ev. parseXTermModifyOtherKeys params = Inr ev)
      = (3 \<le> length params \<and> params ! 1 \<noteq> [] \<and> params ! 2 \<noteq> []))
   \<and> (3 \<le> length params \<and> params ! 1 \<noteq> [] \<and> params ! 2 \<noteq> [] \<longrightarrow>
        (\<exists>k. parseXTermModifyOtherKeys params = Inr (KeyDownEvent k)
           \<and> Mod k = ucast (params ! 1 ! 0 - 1)
           \<and> (map_of modifyOtherKeys (sint (ucast (params ! 2 ! 0) :: rune)) = None \<longrightarrow>
                Rune k = ucast (params ! 2 ! 0) \<and> Sym k = KeyNone)))"
  by (auto simp: parseXTermModifyOtherKeys_def Let_def zeroKey_def split: option.splits)

theorem parseXTermModifyOtherKeys_total_keydown_witness:
  "3 \<le> length [[27], [5], [97 :: 64 word]]
   \<and> map_of modifyOtherKeys (sint (ucast ([[27], [5], [97 :: 64 word]] ! 2 ! 0) :: rune)) = None
   \<and> parseXTermModifyOtherKeys [[27], [5], [97]] =
       Inr (KeyDownEvent \<lparr>Sym = KeyNone, Rune = 97, Mod = Ctrl, IsRepeat = False\<rparr>)
   \<and> parseXTermModifyOtherKeys [[27], [6], [13]] =
       Inr (KeyDownEvent \<lparr>Sym = KeyEnter, Rune = 0, Mod = Shift OR Ctrl, IsRepeat = False\<rparr>)
   \<and> parseXTermModifyOtherKeys [[27], []] = Inl IndexOutOfRange"
  using parseXTermModifyOtherKeys_total_keydown [of "[[27], [5], [97]]"]
  by (simp add: parseXTermModifyOtherKeys_def modifyOtherKeys_def Let_def zeroKey_def
      Shift_def Ctrl_def ansi_defs)

section \<open>Properties of the console key translator\<close>

lemmas ControlKeyState_defs =
  RIGHT_ALT_PRESSED_def LEFT_ALT_PRESSED_def RIGHT_CTRL_PRESSED_def LEFT_CTRL_PRESSED_def
  SHIFT_PRESSED_def NUMLOCK_ON_def SCROLLLOCK_ON_def CAPSLOCK_ON_def

lemma replicate_three: "replicate 3 x = [x, x, x]"
  by (simp add: numeral_3_eq_3)

text \<open>
  C2. The record of the specification's scenario: \<^verbatim>\<open>VK_RETURN\<close>, Ctrl held, repeat
  count 3, a key press. The result is a batch of three KeyDown events for Enter with
  Ctrl, but their is-repeat flag is not set: the event is built before the flag is
  assigned to the key.
\<close>

theorem parseWin32InputKeyEvent_press_repeat:
  "parseWin32InputKeyEvent VK_RETURN 0 0x0D True LEFT_CTRL_PRESSED 3 =
     MultiEvent
      [KeyDownEvent \<lparr>Sym = KeyEnter, Rune = 0, Mod = Ctrl, IsRepeat = False\<rparr>,
       KeyDownEvent \<lparr>Sym = KeyEnter, Rune = 0, Mod = Ctrl, IsRepeat = False\<rparr>,
       KeyDownEvent \<lparr>Sym = KeyEnter, Rune = 0, Mod = Ctrl, IsRepeat = False\<rparr>]"
  by (simp add: parseWin32InputKeyEvent_def vkKeyEvent_def Contains_def ControlKeyState_defs
      VK_RETURN_def zeroKey_def Ctrl_def Let_def replicate_three word_less_nat_alt
      word_le_nat_alt)

section \<open>Properties of the color decoder\<close>

text \<open>
  C4. On \<^verbatim>\<open>rgb:1234/5678/9abc\<close> the channels \<^verbatim>\<open>xParseColor\<close> returns are the
  least significant 8 bits of the components (0x34, 0x78, 0xbc), not the most
  significant ones (0x12, 0x56, 0x9a); likewise for the four components of an
  \<^verbatim>\<open>rgba:\<close> string.
\<close>

theorem xParseColor_low_bits:
  "xParseColor ''rgb:1234/5678/9abc'' = RGBA 0x34 0x78 0xbc 255
   \<and> xParseColor ''rgba:1234/5678/9abc/def0'' = RGBA 0x34 0x78 0xbc 0xf0"
  by (simp add: xParseColor_def HasPrefix_def ParseUint16_32_def hexDigit_def Let_def)

section \<open>Properties of the key table\<close>

subsection \<open>The table operations and the loops over maps\<close>

lemma tableGet_tableSet:
  "tableGet (tableSet k v t) x = (if x = k then Some v else tableGet t x)"
  by (simp add: tableGet_def tableSet_def update_conv')

lemma tableKeys_tableSet: "set (tableKeys (tableSet k v t)) = insert k (set (tableKeys t))"
  by (simp add: tableKeys_def tableSet_def dom_update)

lemma distinct_tableSet: "distinct (tableKeys t) \<Longrightarrow> distinct (tableKeys (tableSet k v t))"
  by (simp add: tableKeys_def tableSet_def distinct_update)

lemma tableGet_None_iff: "tableGet t k = None \<longleftrightarrow> k \<notin> set (tableKeys t)"
  by (simp add: tableGet_def tableKeys_def map_of_eq_None_iff)

lemma fold_frame:
  assumes "\<And>e t. e \<in> set es \<Longrightarrow> tableGet (step e t) x = tableGet t x"
  shows "tableGet (fold step es t) x = tableGet t x"
  using assms by (induction es arbitrary: t) simp_all

lemma fold_keys_pred:
  assumes "\<And>e t. e \<in> set es \<Longrightarrow> \<forall>k\<in>set (tableKeys t). Q k \<Longrightarrow> \<forall>k\<in>set (tableKeys (step e t)). Q k"
    and "\<forall>k\<in>set (tableKeys t). Q k"
  shows "\<forall>k\<in>set (tableKeys (fold step es t)). Q k"
  using assms
proof (induction es arbitrary: t)
  case Nil
  then show ?case by simp
next
  case (Cons e es)
  have 1: "\<forall>k\<in>set (tableKeys (step e t)). Q k"
    by (rule Cons.prems(1)) (simp_all add: Cons.prems(2))
  have "\<forall>k\<in>set (tableKeys (fold step es (step e t))). Q k"
    by (rule Cons.IH [OF _ 1]) (rule Cons.prems(1), simp_all)
  then show ?case by simp
qed

lemma fold_distinct:
  assumes "\<And>e t. distinct (tableKeys t) \<Longrightarrow> distinct (tableKeys (step e t))"
    and "distinct (tableKeys t)"
  shows "distinct (tableKeys (fold step es t))"
  using assms by (induction es arbitrary: t) simp_all

lemma fold_last_writer:
  assumes "\<And>t. tableGet (step e t) x = Some y"
    and "\<And>e' t. e' \<in> set post \<Longrightarrow> tableGet (step e' t) x = tableGet t x"
  shows "tableGet (fold step (pre @ e # post) t) x = Some y"
proof -
  have "tableGet (fold step post (step e (fold step pre t))) x
        = tableGet (step e (fold step pre t)) x"
    by (rule fold_frame) (rule assms(2))
  then show ?thesis by (simp add: assms(1))
qed

lemma set_loop_pred:
  assumes "\<And>k v. (k, v) \<in> set kvs \<Longrightarrow> Q (f k)" and "\<forall>k\<in>set (tableKeys t). Q k"
  shows "\<forall>k\<in>set (tableKeys (fold (\<lambda>(k, v). tableSet (f k) (g v)) kvs t)). Q k"
  by (rule fold_keys_pred [OF _ assms(2)]) (auto simp: tableKeys_tableSet assms(1))

lemma set_loop_distinct:
  "distinct (tableKeys t) \<Longrightarrow> distinct (tableKeys (fold (\<lambda>(k, v). tableSet (f k) (g v)) kvs t))"
  by (rule fold_distinct) (auto simp: distinct_tableSet)

lemma set_loop_frame:
  assumes "\<And>k v. (k, v) \<in> set kvs \<Longrightarrow> f k \<noteq> x"
  shows "tableGet (fold (\<lambda>(k, v). tableSet (f k) (g v)) kvs t) x = tableGet t x"
proof (rule fold_frame)
  fix e :: "'a \<times> 'b" and t
  assume e: "e \<in> set kvs"
  obtain k v where kv: "e = (k, v)" by (cases e)
  have "f k \<noteq> x" using assms e kv by blast
  then show "tableGet ((case e of (k, v) \<Rightarrow> tableSet (f k) (g v)) t) x = tableGet t x"
    by (auto simp: kv tableGet_tableSet)
qed

lemma set_loop_hit:
  assumes "distinct (map fst kvs)" "inj f" "(k, v) \<in> set kvs"
  shows "tableGet (fold (\<lambda>(k, v). tableSet (f k) (g v)) kvs t) (f k) = Some (g v)"
proof -
  obtain pre post where split: "kvs = pre @ (k, v) # post"
    using assms(3) by (meson split_list)
  have notin: "\<And>k' v'. (k', v') \<in> set post \<Longrightarrow> k' \<noteq> k"
    using assms(1) unfolding split by (auto simp: rev_image_eqI)
  show ?thesis unfolding split
  proof (rule fold_last_writer)
    show "\<And>t. tableGet ((case (k, v) of (k, v) \<Rightarrow> tableSet (f k) (g v)) t) (f k) = Some (g v)"
      by (simp add: tableGet_tableSet)
    fix e' :: "'a \<times> 'b" and t
    assume e: "e' \<in> set post"
    obtain k' v' where kv: "e' = (k', v')" by (cases e')
    have "k' \<noteq> k" using notin e kv by blast
    then have "f k' \<noteq> f k" using assms(2) by (auto dest: injD)
    then show "tableGet ((case e' of (k, v) \<Rightarrow> tableSet (f k) (g v)) t) (f k) = tableGet t (f k)"
      by (auto simp: kv tableGet_tableSet)
  qed
qed

lemma set_loop_hit_on:
  assumes "distinct (map fst kvs)" "inj_on f (fst ` set kvs)" "(k, v) \<in> set kvs"
  shows "tableGet (fold (\<lambda>(k, v). tableSet (f k) (g v)) kvs t) (f k) = Some (g v)"
proof -
  obtain pre post where split: "kvs = pre @ (k, v) # post"
    using assms(3) by (meson split_list)
  have notin: "\<And>k' v'. (k', v') \<in> set post \<Longrightarrow> k' \<noteq> k"
    using assms(1) unfolding split by (auto simp: rev_image_eqI)
  have kin: "k \<in> fst ` set kvs" using assms(3) by force
  show ?thesis unfolding split
  proof (rule fold_last_writer)
    show "\<And>t. tableGet ((case (k, v) of (k, v) \<Rightarrow> tableSet (f k) (g v)) t) (f k) = Some (g v)"
      by (simp add: tableGet_tableSet)
    fix e' :: "'a \<times> 'b" and t
    assume e: "e' \<in> set post"
    obtain k' v' where kv: "e' = (k', v')" by (cases e')
    have "k' \<noteq> k" using notin e kv by blast
    moreover have "k' \<in> fst ` set kvs" using e kv split by force
    ultimately have "f k' \<noteq> f k" using assms(2) kin by (auto dest: inj_onD)
    then show "tableGet ((case e' of (k, v) \<Rightarrow> tableSet (f k) (g v)) t) (f k) = tableGet t (f k)"
      by (auto simp: kv tableGet_tableSet)
  qed
qed

text \<open>
  A loop that ranges over a map and assigns one key of the table per entry, the keys
  being different for different entries, builds the same table in whatever order the
  entries are visited.
\<close>

lemma set_loop_any_order:
  assumes "distinct (map fst kvs)" "distinct (map fst kvs')" "set kvs = set kvs'"
    and "inj_on f (fst ` set kvs)"
  shows "tableGet (fold (\<lambda>(k, v). tableSet (f k) (g v)) kvs t) x
       = tableGet (fold (\<lambda>(k, v). tableSet (f k) (g v)) kvs' t) x"
proof (cases "\<exists>k v. (k, v) \<in> set kvs \<and> f k = x")
  case True
  then obtain k v where kv: "(k, v) \<in> set kvs" and x: "f k = x" by blast
  have kv': "(k, v) \<in> set kvs'" using kv assms(3) by simp
  have inj': "inj_on f (fst ` set kvs')" using assms(3,4) by simp
  show ?thesis
    using set_loop_hit_on [OF assms(1,4) kv, of g t] set_loop_hit_on [OF assms(2) inj' kv', of g t]
    by (simp add: x)
next
  case False
  then have 1: "\<And>k v. (k, v) \<in> set kvs \<Longrightarrow> f k \<noteq> x" by blast
  then have 2: "\<And>k v. (k, v) \<in> set kvs' \<Longrightarrow> f k \<noteq> x" using assms(3) by simp
  show ?thesis by (simp add: set_loop_frame [of kvs f x, OF 1] set_loop_frame [of kvs' f x, OF 2])
qed

lemma baseKey_csi: "baseKey (ESC # CHR ''['' # s)"
  by (simp add: baseKey_def keyStart_def)

lemma baseKey_ss3: "baseKey (ESC # CHR ''O'' # s)"
  by (simp add: baseKey_def keyStart_def)

lemma baseTable_baseKey: "\<forall>k\<in>set (tableKeys (baseTable flags)). baseKey k"
  by (simp add: tableKeys_def baseTable_def baseKey_def keyStart_def)

lemma baseTable_distinct: "distinct (tableKeys (baseTable flags))"
  by (simp add: tableKeys_def baseTable_def)


lemma baseKey_keyStart: "baseKey k \<Longrightarrow> keyStart k"
  by (simp add: baseKey_def)

lemma keyStart_ESC: "keyStart (ESC # k)"
  by (simp add: keyStart_def)

lemma xtermKeys_baseKey:
  assumes "\<forall>k\<in>set (tableKeys t). baseKey k"
  shows "\<forall>k\<in>set (tableKeys (xtermKeys flags m t)). baseKey k"
  unfolding xtermKeys_def Let_def
  by (intro set_loop_pred assms) (simp_all add: baseKey_csi baseKey_ss3)

lemma xtermKeys_distinct:
  "distinct (tableKeys t) \<Longrightarrow> distinct (tableKeys (xtermKeys flags m t))"
  unfolding xtermKeys_def Let_def
  by (intro set_loop_distinct)

lemma xtermKeys_frame_single: "tableGet (xtermKeys flags m t) [c] = tableGet t [c]"
  unfolding xtermKeys_def Let_def by (simp add: set_loop_frame)

lemma urxvtTildeKeys_keys:
  "set (tableKeys (urxvtTildeKeys (k, v) t)) =
     {ESC # ''['' @ k @ ''$'', ESC # ''['' @ k @ ''^'', ESC # ''['' @ k @ ''@''}
       \<union> set (tableKeys t)"
  by (auto simp: urxvtTildeKeys_def Let_def tableKeys_tableSet)

lemma urxvtTildeKeys_distinct:
  "distinct (tableKeys t) \<Longrightarrow> distinct (tableKeys (urxvtTildeKeys e t))"
  by (cases e) (simp add: urxvtTildeKeys_def Let_def distinct_tableSet)

lemma urxvtTildeKeys_frame:
  assumes "x \<noteq> ESC # ''['' @ k @ ''$''" "x \<noteq> ESC # ''['' @ k @ ''^''"
    "x \<noteq> ESC # ''['' @ k @ ''@''"
  shows "tableGet (urxvtTildeKeys (k, v) t) x = tableGet t x"
  using assms by (simp add: urxvtTildeKeys_def Let_def tableGet_tableSet)

lemma preAltTable_baseKey: "\<forall>k\<in>set (tableKeys (preAltTable flags)). baseKey k"
proof -
  have 0: "\<forall>k\<in>set (tableKeys (baseTable flags)). baseKey k" by (rule baseTable_baseKey)
  have 1: "\<forall>k\<in>set (tableKeys (fold (xtermKeys flags) modifiers (baseTable flags))). baseKey k"
    by (rule fold_keys_pred [OF _ 0]) (rule xtermKeys_baseKey)
  define t1 where "t1 = (if FlagNoXTerm \<notin> flags
      then fold (xtermKeys flags) modifiers (baseTable flags) else baseTable flags)"
  have t1: "\<forall>k\<in>set (tableKeys t1). baseKey k" using 0 1 by (simp add: t1_def)
  have 2: "\<forall>k\<in>set (tableKeys (fold (\<lambda>(k, v). tableSet k v) urxvtArrowKeys t1)). baseKey k"
    by (rule set_loop_pred [OF _ t1]) (auto simp: urxvtArrowKeys_def baseKey_csi baseKey_ss3)
  have 3: "\<forall>k\<in>set (tableKeys (fold urxvtTildeKeys (csiTildeKeys flags)
              (fold (\<lambda>(k, v). tableSet k v) urxvtArrowKeys t1))). baseKey k"
  proof (rule fold_keys_pred [OF _ 2])
    fix e :: "string \<times> Key" and t
    assume "\<forall>k\<in>set (tableKeys t). baseKey k"
    then show "\<forall>k\<in>set (tableKeys (urxvtTildeKeys e t)). baseKey k"
      by (cases e) (auto simp: urxvtTildeKeys_keys baseKey_csi)
  qed
  have 4: "\<forall>k\<in>set (tableKeys (fold (\<lambda>(k, v). tableSet k v) urxvtFKeys
              (fold urxvtTildeKeys (csiTildeKeys flags)
              (fold (\<lambda>(k, v). tableSet k v) urxvtArrowKeys t1)))). baseKey k"
    by (rule set_loop_pred [OF _ 3]) (auto simp: urxvtFKeys_def baseKey_csi)
  show ?thesis using 4 by (simp add: preAltTable_def Let_def t1_def)
qed

lemma preAltTable_distinct: "distinct (tableKeys (preAltTable flags))"
proof -
  have 0: "distinct (tableKeys (baseTable flags))" by (rule baseTable_distinct)
  have 1: "distinct (tableKeys (fold (xtermKeys flags) modifiers (baseTable flags)))"
    by (rule fold_distinct [OF _ 0]) (rule xtermKeys_distinct)
  define t1 where "t1 = (if FlagNoXTerm \<notin> flags
      then fold (xtermKeys flags) modifiers (baseTable flags) else baseTable flags)"
  have t1: "distinct (tableKeys t1)" using 0 1 by (simp add: t1_def)
  have "distinct (tableKeys (fold (\<lambda>(k, v). tableSet k v) urxvtFKeys
              (fold urxvtTildeKeys (csiTildeKeys flags)
              (fold (\<lambda>(k, v). tableSet k v) urxvtArrowKeys t1))))"
    by (intro set_loop_distinct fold_distinct urxvtTildeKeys_distinct t1)
  then show ?thesis by (simp add: preAltTable_def Let_def t1_def)
qed

lemma preAltTable_single:
  "tableGet (preAltTable flags) [c] = tableGet (baseTable flags) [c]"
proof -
  have x: "\<And>t. tableGet (fold (xtermKeys flags) modifiers t) [c] = tableGet t [c]"
    by (rule fold_frame) (rule xtermKeys_frame_single)
  have u: "\<And>t. tableGet (fold urxvtTildeKeys (csiTildeKeys flags) t) [c] = tableGet t [c]"
  proof (rule fold_frame)
    fix e :: "string \<times> Key" and t
    show "tableGet (urxvtTildeKeys e t) [c] = tableGet t [c]"
      by (cases e) (simp add: urxvtTildeKeys_frame)
  qed
  have a: "\<And>t. tableGet (fold (\<lambda>(k, v). tableSet k v) urxvtArrowKeys t) [c] = tableGet t [c]"
    by (rule set_loop_frame) (auto simp: urxvtArrowKeys_def)
  have f: "\<And>t. tableGet (fold (\<lambda>(k, v). tableSet k v) urxvtFKeys t) [c] = tableGet t [c]"
    by (rule set_loop_frame) (auto simp: urxvtFKeys_def)
  show ?thesis by (simp add: preAltTable_def Let_def x u a f)
qed

lemma altStep_keys:
  "set (tableKeys (altStep k t)) =
     (if k \<in> set (tableKeys t) then insert (ESC # k) (set (tableKeys t)) else set (tableKeys t))"
proof (cases "tableGet t k")
  case None
  then have "k \<notin> set (tableKeys t)" by (simp add: tableGet_None_iff)
  then show ?thesis using None by (simp add: altStep_def)
next
  case (Some v)
  then have "k \<in> set (tableKeys t)" using tableGet_None_iff [of t k] by simp
  then show ?thesis using Some by (simp add: altStep_def tableKeys_tableSet)
qed

lemma altStep_get:
  "tableGet (altStep k t) x =
     (case tableGet t k of
        None \<Rightarrow> tableGet t x
      | Some v \<Rightarrow> if x = ESC # k then Some (v\<lparr>Mod := Mod v OR Alt\<rparr>) else tableGet t x)"
  by (simp add: altStep_def tableGet_tableSet split: option.splits)

lemma altStep_keyStart:
  assumes "\<forall>k\<in>set (tableKeys t). keyStart k"
  shows "\<forall>k\<in>set (tableKeys (altStep k0 t)). keyStart k"
  using assms by (auto simp: altStep_keys keyStart_ESC)

lemma altStep_frame_baseKey:
  assumes "\<forall>k\<in>set (tableKeys t). keyStart k" and "baseKey x"
  shows "tableGet (altStep k t) x = tableGet t x"
proof (cases "tableGet t k")
  case None
  then show ?thesis by (simp add: altStep_get)
next
  case (Some v)
  then have "k \<in> set (tableKeys t)" using tableGet_None_iff [of t k] by simp
  then have "keyStart k" using assms(1) by blast
  then have "x \<noteq> ESC # k" using assms(2) by (auto simp: baseKey_def)
  then show ?thesis using Some by (simp add: altStep_get)
qed

lemma altPass_Cons: "altPass (k # ks) t = altPass ks (altStep k t)"
  by (simp add: altPass_def)

lemma altPass_append: "altPass (xs @ ys) t = altPass ys (altPass xs t)"
  by (simp add: altPass_def)

lemma altPass_keyStart:
  assumes "\<forall>k\<in>set (tableKeys t). keyStart k"
  shows "\<forall>k\<in>set (tableKeys (altPass order t)). keyStart k"
  unfolding altPass_def
  by (rule fold_keys_pred [OF _ assms]) (rule altStep_keyStart)

lemma altPass_keys_upper:
  "set (tableKeys (altPass order t)) \<subseteq> set (tableKeys t) \<union> (\<lambda>k. ESC # k) ` set order"
proof (induction order arbitrary: t)
  case Nil
  show ?case by (simp add: altPass_def)
next
  case (Cons k ks)
  have "set (tableKeys (altPass ks (altStep k t)))
        \<subseteq> set (tableKeys (altStep k t)) \<union> (\<lambda>k. ESC # k) ` set ks"
    by (rule Cons.IH)
  also have "\<dots> \<subseteq> set (tableKeys t) \<union> (\<lambda>k. ESC # k) ` set (k # ks)"
    by (auto simp: altStep_keys split: if_splits)
  finally show ?case by (simp add: altPass_Cons)
qed

lemma altPass_frame_baseKey:
  assumes "\<forall>k\<in>set (tableKeys t). keyStart k" and "baseKey x"
  shows "tableGet (altPass order t) x = tableGet t x"
  using assms(1)
proof (induction order arbitrary: t)
  case Nil
  show ?case by (simp add: altPass_def)
next
  case (Cons k ks)
  have "tableGet (altPass ks (altStep k t)) x = tableGet (altStep k t) x"
    by (rule Cons.IH) (rule altStep_keyStart [OF Cons.prems])
  also have "\<dots> = tableGet t x"
    by (rule altStep_frame_baseKey [OF Cons.prems assms(2)])
  finally show ?case by (simp add: altPass_Cons)
qed

lemma altPass_frame_unvisited:
  assumes "x \<notin> (\<lambda>k. ESC # k) ` set order"
  shows "tableGet (altPass order t) x = tableGet t x"
  unfolding altPass_def
proof (rule fold_frame)
  fix e t
  assume "e \<in> set order"
  then have "x \<noteq> ESC # e" using assms by blast
  then show "tableGet (altStep e t) x = tableGet t x"
    by (simp add: altStep_get split: option.splits)
qed

lemma altPass_visited:
  assumes "\<forall>k\<in>set (tableKeys t). keyStart k" and "baseKey x"
    and "tableGet t x = Some v" and "distinct order" and "x \<in> set order"
  shows "tableGet (altPass order t) (ESC # x) = Some (v\<lparr>Mod := Mod v OR Alt\<rparr>)"
  using assms(1,3,4,5)
proof (induction order arbitrary: t)
  case Nil
  then show ?case by simp
next
  case (Cons k ks)
  show ?case
  proof (cases "k = x")
    case True
    have "ESC # x \<notin> (\<lambda>k. ESC # k) ` set ks" using Cons.prems(3) True by auto
    then have "tableGet (altPass ks (altStep x t)) (ESC # x) = tableGet (altStep x t) (ESC # x)"
      by (rule altPass_frame_unvisited)
    also have "\<dots> = Some (v\<lparr>Mod := Mod v OR Alt\<rparr>)"
      using Cons.prems(2) by (simp add: altStep_get)
    finally show ?thesis using True by (simp add: altPass_Cons)
  next
    case False
    have 1: "\<forall>k\<in>set (tableKeys (altStep k t)). keyStart k"
      by (rule altStep_keyStart [OF Cons.prems(1)])
    have 2: "tableGet (altStep k t) x = Some v"
      using altStep_frame_baseKey [OF Cons.prems(1) assms(2)] Cons.prems(2) by simp
    have "tableGet (altPass ks (altStep k t)) (ESC # x) = Some (v\<lparr>Mod := Mod v OR Alt\<rparr>)"
      using Cons.prems(3,4) False by (intro Cons.IH [OF 1 2]) auto
    then show ?thesis by (simp add: altPass_Cons)
  qed
qed

lemma visitsPresent_subset:
  assumes "set ks \<subseteq> set (tableKeys t)"
  shows "visitsPresent t ks"
  using assms
proof (induction ks arbitrary: t)
  case Nil
  show ?case by simp
next
  case (Cons k ks)
  have "set ks \<subseteq> set (tableKeys (altStep k t))"
    using Cons.prems by (auto simp: altStep_keys)
  then show ?case using Cons.prems Cons.IH by simp
qed

lemma visitsPresent_append:
  "visitsPresent t (xs @ ys) = (visitsPresent t xs \<and> visitsPresent (altPass xs t) ys)"
  by (induction xs arbitrary: t) (simp_all add: altPass_def)

lemma rangeOrder_snapshot:
  assumes "distinct (tableKeys t)"
  shows "rangeOrder t (tableKeys t)"
  using assms by (simp add: rangeOrder_def visitsPresent_subset)

lemma registerKeys_NoTerminfo:
  "FlagNoTerminfo \<in> flags \<Longrightarrow> registerKeys tf flags order = altPass order (preAltTable flags)"
  by (simp add: registerKeys_def Let_def)

lemma preAltTable_keyStart: "\<forall>k\<in>set (tableKeys (preAltTable flags)). keyStart k"
  using preAltTable_baseKey baseKey_keyStart by blast

subsection \<open>The first byte of the keys\<close>

lemma space_in_table:
  assumes "FlagNoTerminfo \<in> flags"
  shows "tableGet (registerKeys tf flags order) '' '' = Some (spKey flags)"
proof -
  have b: "baseKey '' ''" by (simp add: baseKey_def keyStart_def)
  have "tableGet (registerKeys tf flags order) '' '' = tableGet (preAltTable flags) '' ''"
    by (simp add: registerKeys_NoTerminfo [OF assms]
        altPass_frame_baseKey [OF preAltTable_keyStart b])
  also have "\<dots> = tableGet (baseTable flags) '' ''"
    by (rule preAltTable_single)
  also have "\<dots> = Some (spKey flags)"
    by (simp add: tableGet_def baseTable_def)
  finally show ?thesis .
qed

text \<open>
  C1, as the claim states it, fails: the map literal has the space, the one-byte key
  0x20, which is neither ESC, nor a C0 control byte, nor DEL; the key is in the table
  that \<^verbatim>\<open>registerKeys\<close> builds with \<^verbatim>\<open>FlagNoTerminfo\<close> set.
\<close>

theorem registerKeys_space_key:
  "'' '' \<in> set (tableKeys (registerKeys (\<lambda>t. t) {FlagNoTerminfo}
                (tableKeys (preAltTable {FlagNoTerminfo}))))
   \<and> \<not> (hd '' '' = ESC \<or> (of_char (hd '' '') :: nat) \<le> 0x1F \<or> hd '' '' = CHR 0x7F)"
proof -
  have "tableGet (registerKeys (\<lambda>t. t) {FlagNoTerminfo}
                (tableKeys (preAltTable {FlagNoTerminfo}))) '' '' \<noteq> None"
    by (simp add: space_in_table)
  then show ?thesis by (simp add: tableGet_None_iff)
qed

text \<open>
  C1, amended. With \<^verbatim>\<open>FlagNoTerminfo\<close> set, whatever the other flags and whatever
  the Alt loop visits, every key of the table is a non-empty byte string whose first
  byte is ESC, a C0 control byte, the space 0x20 or DEL.
\<close>

theorem registerKeys_key_start:
  assumes "FlagNoTerminfo \<in> flags"
  shows "\<forall>k\<in>set (tableKeys (registerKeys tf flags order)).
     k \<noteq> [] \<and> (hd k = ESC \<or> (of_char (hd k) :: nat) \<le> 0x1F \<or> hd k = CHR 0x20
                \<or> hd k = CHR 0x7F)"
proof
  fix k
  assume "k \<in> set (tableKeys (registerKeys tf flags order))"
  then have "k \<in> set (tableKeys (altPass order (preAltTable flags)))"
    by (simp add: registerKeys_NoTerminfo [OF assms])
  then have ks: "keyStart k" using altPass_keyStart [OF preAltTable_keyStart] by blast
  then have ne: "k \<noteq> []" by (simp add: keyStart_def)
  have "(of_char (hd k) :: nat) \<le> 0x1F \<or> (of_char (hd k) :: nat) = 0x20 \<or> hd k = CHR 0x7F"
    using ks by (auto simp: keyStart_def)
  moreover have "(of_char (hd k) :: nat) = 0x20 \<Longrightarrow> hd k = CHR 0x20"
  proof -
    assume "(of_char (hd k) :: nat) = 0x20"
    then have "(of_char (hd k) :: nat) = of_char (CHR 0x20)" by simp
    then show ?thesis by (simp only: of_char_eq_iff)
  qed
  ultimately show "k \<noteq> [] \<and> (hd k = ESC \<or> (of_char (hd k) :: nat) \<le> 0x1F \<or> hd k = CHR 0x20
                \<or> hd k = CHR 0x7F)"
    using ne by blast
qed

theorem registerKeys_key_start_witness:
  "FlagNoTerminfo \<in> {FlagNoTerminfo}
   \<and> '' '' \<in> set (tableKeys (registerKeys (\<lambda>t. t) {FlagNoTerminfo} []))
   \<and> hd '' '' = CHR 0x20"
proof -
  have "tableGet (registerKeys (\<lambda>t. t) {FlagNoTerminfo} []) '' '' \<noteq> None"
    by (simp add: space_in_table)
  then have "'' '' \<in> set (tableKeys (registerKeys (\<lambda>t. t) {FlagNoTerminfo} []))"
    by (simp add: tableGet_None_iff)
  then show ?thesis
    using registerKeys_key_start [of "{FlagNoTerminfo}" "\<lambda>t. t" "[]"] by simp
qed

subsection \<open>The Alt combinations\<close>

lemma ctrl_a_in_preAltTable:
  "tableGet (preAltTable flags) [CHR 0x01] = Some (zeroKey\<lparr>Rune := runeOf (CHR ''a''), Mod := Ctrl\<rparr>)"
proof -
  have "tableGet (preAltTable flags) [CHR 0x01] = tableGet (baseTable flags) [CHR 0x01]"
    by (rule preAltTable_single)
  then show ?thesis by (simp add: tableGet_def baseTable_def)
qed

text \<open>
  C5. With \<^verbatim>\<open>FlagNoTerminfo\<close> set, for every entry \<open>seq \<mapsto> ev\<close> of the table at the
  start of the Alt loop and every sequence of visits the language allows, the final
  table maps ESC followed by \<open>seq\<close> to \<open>ev\<close> with Alt added to its modifiers, and
  still maps \<open>seq\<close> to \<open>ev\<close>.
\<close>

theorem registerKeys_alt_duplication:
  assumes "FlagNoTerminfo \<in> flags" and "rangeOrder (preAltTable flags) order"
    and "tableGet (preAltTable flags) seq = Some ev"
  shows "tableGet (registerKeys tf flags order) (ESC # seq) = Some (ev\<lparr>Mod := Mod ev OR Alt\<rparr>)
     \<and> tableGet (registerKeys tf flags order) seq = Some ev"
proof -
  have mem: "seq \<in> set (tableKeys (preAltTable flags))"
    using assms(3) tableGet_None_iff [of "preAltTable flags" seq] by simp
  then have b: "baseKey seq" using preAltTable_baseKey by blast
  have d: "distinct order" and v: "seq \<in> set order"
    using assms(2) mem by (auto simp: rangeOrder_def)
  have 1: "tableGet (altPass order (preAltTable flags)) (ESC # seq)
           = Some (ev\<lparr>Mod := Mod ev OR Alt\<rparr>)"
    by (rule altPass_visited [OF preAltTable_keyStart b assms(3) d v])
  have 2: "tableGet (altPass order (preAltTable flags)) seq = Some ev"
    using altPass_frame_baseKey [OF preAltTable_keyStart b] assms(3) by simp
  show ?thesis using 1 2 by (simp add: registerKeys_NoTerminfo [OF assms(1)])
qed

theorem registerKeys_alt_duplication_witness:
  "rangeOrder (preAltTable {FlagNoTerminfo}) (tableKeys (preAltTable {FlagNoTerminfo}))
   \<and> tableGet (preAltTable {FlagNoTerminfo}) [CHR 0x01]
       = Some \<lparr>Sym = KeyNone, Rune = 97, Mod = Ctrl, IsRepeat = False\<rparr>
   \<and> tableGet (registerKeys (\<lambda>t. t) {FlagNoTerminfo} (tableKeys (preAltTable {FlagNoTerminfo})))
         [ESC, CHR 0x01]
       = Some \<lparr>Sym = KeyNone, Rune = 97, Mod = Ctrl OR Alt, IsRepeat = False\<rparr>
   \<and> tableGet (registerKeys (\<lambda>t. t) {FlagNoTerminfo} (tableKeys (preAltTable {FlagNoTerminfo})))
         [CHR 0x01]
       = Some \<lparr>Sym = KeyNone, Rune = 97, Mod = Ctrl, IsRepeat = False\<rparr>"
proof -
  have r: "rangeOrder (preAltTable {FlagNoTerminfo}) (tableKeys (preAltTable {FlagNoTerminfo}))"
    by (rule rangeOrder_snapshot [OF preAltTable_distinct])
  have g: "tableGet (preAltTable {FlagNoTerminfo}) [CHR 0x01]
       = Some (zeroKey\<lparr>Rune := runeOf (CHR ''a''), Mod := Ctrl\<rparr>)"
    by (rule ctrl_a_in_preAltTable)
  have f: "FlagNoTerminfo \<in> {FlagNoTerminfo}" by simp
  show ?thesis
    using r g registerKeys_alt_duplication [OF f r g, of "\<lambda>t. t"]
    by (simp add: zeroKey_def runeOf_def)
qed

subsection \<open>The XTerm modifiers\<close>


lemma modifiers_distinct: "distinct modifiers"
  by (simp add: modifiers_def Shift_def Alt_def Ctrl_def Meta_def)

lemma modifiers_length: "length modifiers = 15"
  by (simp add: modifiers_def)

lemma xtermMod_distinct: "distinct (map (\<lambda>m. Itoa (uint m + 1)) modifiers)"
  by (simp add: modifiers_def Shift_def Alt_def Ctrl_def Meta_def Itoa_def digitChar_def
      itoaNat.simps)

lemma xtermMod_inj:
  assumes "m1 \<in> set modifiers" "m2 \<in> set modifiers" "Itoa (uint m1 + 1) = Itoa (uint m2 + 1)"
  shows "m1 = m2"
  using xtermMod_distinct assms by (auto simp: distinct_map dest: inj_onD)

lemma modifiers_nth:
  assumes "1 \<le> m" "m \<le> 15"
  shows "uint (modifiers ! (m - 1)) = int m"
proof -
  have "m = 1 \<or> m = 2 \<or> m = 3 \<or> m = 4 \<or> m = 5 \<or> m = 6 \<or> m = 7 \<or> m = 8 \<or> m = 9
      \<or> m = 10 \<or> m = 11 \<or> m = 12 \<or> m = 13 \<or> m = 14 \<or> m = 15"
    using assms by arith
  then show ?thesis
    by (elim disjE) (simp_all add: modifiers_def Shift_def Alt_def Ctrl_def Meta_def)
qed

lemma csiFuncKeys_shape:
  assumes "(F, v) \<in> set csiFuncKeys"
  shows "\<exists>c. F = [c] \<and> c \<noteq> CHR ''~''"
  using assms by (auto simp: csiFuncKeys_def)

lemma csiFuncKeys_base:
  assumes "(F, v) \<in> set csiFuncKeys"
  shows "tableGet (baseTable flags) (ESC # ''['' @ F) = Some v"
proof -
  have "(F, v) \<in> set csiFuncKeys" by (rule assms)
  then have "(F = ''A'' \<and> v = zeroKey\<lparr>Sym := KeyUp\<rparr>) \<or> (F = ''B'' \<and> v = zeroKey\<lparr>Sym := KeyDown\<rparr>)
     \<or> (F = ''C'' \<and> v = zeroKey\<lparr>Sym := KeyRight\<rparr>) \<or> (F = ''D'' \<and> v = zeroKey\<lparr>Sym := KeyLeft\<rparr>)
     \<or> (F = ''E'' \<and> v = zeroKey\<lparr>Sym := KeyBegin\<rparr>) \<or> (F = ''F'' \<and> v = zeroKey\<lparr>Sym := KeyEnd\<rparr>)
     \<or> (F = ''H'' \<and> v = zeroKey\<lparr>Sym := KeyHome\<rparr>) \<or> (F = ''P'' \<and> v = zeroKey\<lparr>Sym := KeyF1\<rparr>)
     \<or> (F = ''Q'' \<and> v = zeroKey\<lparr>Sym := KeyF2\<rparr>) \<or> (F = ''R'' \<and> v = zeroKey\<lparr>Sym := KeyF3\<rparr>)
     \<or> (F = ''S'' \<and> v = zeroKey\<lparr>Sym := KeyF4\<rparr>)"
    unfolding csiFuncKeys_def by simp
  then show ?thesis
    by (elim disjE conjE) (simp_all only: tableGet_def baseTable_def, simp_all)
qed

lemma csiFuncKeys_distinct: "distinct (map fst csiFuncKeys)"
  by (simp add: csiFuncKeys_def)

lemma csiFuncKeys_single: "(k, v) \<in> set csiFuncKeys \<Longrightarrow> length k = 1"
  by (auto simp: csiFuncKeys_def)

lemma xtermKeys_csi_lookup:
  assumes "(F, v) \<in> set csiFuncKeys"
  shows "tableGet (xtermKeys flags m t) (ESC # ''[1;'' @ e @ F) =
     (if Itoa (uint m + 1) = e then Some (v\<lparr>Mod := m\<rparr>) else tableGet t (ESC # ''[1;'' @ e @ F))"
proof -
  obtain c where F: "F = [c]" and c: "c \<noteq> CHR ''~''"
    using csiFuncKeys_shape [OF assms] by blast
  let ?x = "ESC # ''[1;'' @ e @ F"
  let ?e = "Itoa (uint m + 1)"
  have lastx: "last ?x = c" by (simp add: F)
  have l4: "\<And>t. tableGet (fold (\<lambda>(k, v). tableSet (ESC # ''[27;'' @ ?e @ '';'' @ Itoa k @ ''~'')
                               (v\<lparr>Mod := m\<rparr>)) modifyOtherKeys t) ?x = tableGet t ?x"
  proof (rule set_loop_frame)
    fix k :: int and v' :: Key
    show "ESC # ''[27;'' @ ?e @ '';'' @ Itoa k @ ''~'' \<noteq> ?x"
    proof
      assume "ESC # ''[27;'' @ ?e @ '';'' @ Itoa k @ ''~'' = ?x"
      then have "last (ESC # ''[27;'' @ ?e @ '';'' @ Itoa k @ ''~'') = last ?x" by simp
      then show False using c lastx by simp
    qed
  qed
  have l3: "\<And>t. tableGet (fold (\<lambda>(k, v). tableSet (ESC # ''['' @ k @ '';'' @ ?e @ ''~'')
                               (v\<lparr>Mod := m\<rparr>)) (csiTildeKeys flags) t) ?x = tableGet t ?x"
  proof (rule set_loop_frame)
    fix k :: string and v' :: Key
    show "ESC # ''['' @ k @ '';'' @ ?e @ ''~'' \<noteq> ?x"
    proof
      assume "ESC # ''['' @ k @ '';'' @ ?e @ ''~'' = ?x"
      then have "last (ESC # ''['' @ k @ '';'' @ ?e @ ''~'') = last ?x" by simp
      then show False using c lastx by simp
    qed
  qed
  have l2: "\<And>t. tableGet (fold (\<lambda>(k, v). tableSet (ESC # ''O'' @ ?e @ k) (v\<lparr>Mod := m\<rparr>))
                ss3FuncKeys t) ?x = tableGet t ?x"
    by (rule set_loop_frame) simp
  have l1: "tableGet (fold (\<lambda>(k, v). tableSet (ESC # ''[1;'' @ ?e @ k) (v\<lparr>Mod := m\<rparr>))
                csiFuncKeys t) ?x
            = (if ?e = e then Some (v\<lparr>Mod := m\<rparr>) else tableGet t ?x)"
  proof (cases "?e = e")
    case True
    have "inj (\<lambda>k. ESC # ''[1;'' @ ?e @ k)" by (simp add: inj_def)
    then have "tableGet (fold (\<lambda>(k, v). tableSet (ESC # ''[1;'' @ ?e @ k) (v\<lparr>Mod := m\<rparr>))
                csiFuncKeys t) (ESC # ''[1;'' @ ?e @ F) = Some (v\<lparr>Mod := m\<rparr>)"
      by (rule set_loop_hit [OF csiFuncKeys_distinct _ assms])
    then show ?thesis using True by simp
  next
    case False
    have "tableGet (fold (\<lambda>(k, v). tableSet (ESC # ''[1;'' @ ?e @ k) (v\<lparr>Mod := m\<rparr>))
                csiFuncKeys t) ?x = tableGet t ?x"
    proof (rule set_loop_frame)
      fix k :: string and v' :: Key
      assume "(k, v') \<in> set csiFuncKeys"
      then have "length k = 1" by (rule csiFuncKeys_single)
      then have "?e @ k \<noteq> e @ F" using False by (simp add: F)
      then show "ESC # ''[1;'' @ ?e @ k \<noteq> ?x" by simp
    qed
    then show ?thesis using False by simp
  qed
  show ?thesis unfolding xtermKeys_def Let_def by (simp only: l4 l3 l2 l1)
qed

lemma xterm_phase_csi_lookup:
  assumes "(F, v) \<in> set csiFuncKeys" and "i < 15"
  shows "tableGet (fold (xtermKeys flags) modifiers t)
           (ESC # ''[1;'' @ Itoa (uint (modifiers ! i) + 1) @ F)
         = Some (v\<lparr>Mod := modifiers ! i\<rparr>)"
proof -
  let ?m = "modifiers ! i"
  have i: "i < length modifiers" using assms(2) by (simp add: modifiers_length)
  have split: "modifiers = take i modifiers @ ?m # drop (Suc i) modifiers"
    by (rule id_take_nth_drop [OF i])
  have d: "distinct (take i modifiers @ ?m # drop (Suc i) modifiers)"
    using modifiers_distinct split by simp
  have notin: "?m \<notin> set (drop (Suc i) modifiers)" using d by simp
  have "tableGet (fold (xtermKeys flags) (take i modifiers @ ?m # drop (Suc i) modifiers) t)
           (ESC # ''[1;'' @ Itoa (uint ?m + 1) @ F) = Some (v\<lparr>Mod := ?m\<rparr>)"
  proof (rule fold_last_writer)
    fix t
    show "tableGet (xtermKeys flags ?m t) (ESC # ''[1;'' @ Itoa (uint ?m + 1) @ F)
        = Some (v\<lparr>Mod := ?m\<rparr>)"
      using xtermKeys_csi_lookup [OF assms(1), of flags ?m t "Itoa (uint ?m + 1)"] by simp
  next
    fix m' t
    assume m': "m' \<in> set (drop (Suc i) modifiers)"
    then have "m' \<in> set modifiers" by (rule in_set_dropD)
    moreover have "?m \<in> set modifiers" using i by simp
    moreover have "m' \<noteq> ?m" using m' notin by blast
    ultimately have "Itoa (uint m' + 1) \<noteq> Itoa (uint ?m + 1)"
      using xtermMod_inj by blast
    then show "tableGet (xtermKeys flags m' t) (ESC # ''[1;'' @ Itoa (uint ?m + 1) @ F)
        = tableGet t (ESC # ''[1;'' @ Itoa (uint ?m + 1) @ F)"
      using xtermKeys_csi_lookup [OF assms(1), of flags m' t "Itoa (uint ?m + 1)"] by simp
  qed
  then show ?thesis using split by simp
qed

lemma urxvt_phase_csi_frame:
  assumes "(F, v) \<in> set csiFuncKeys"
  shows "tableGet (fold (\<lambda>(k, v). tableSet k v) urxvtFKeys
              (fold urxvtTildeKeys (csiTildeKeys flags)
              (fold (\<lambda>(k, v). tableSet k v) urxvtArrowKeys t))) (ESC # ''[1;'' @ e @ F)
         = tableGet t (ESC # ''[1;'' @ e @ F)"
proof -
  let ?x = "ESC # ''[1;'' @ e @ F"
  have a: "\<And>t. tableGet (fold (\<lambda>(k, v). tableSet k v) urxvtArrowKeys t) ?x = tableGet t ?x"
    by (rule set_loop_frame) (auto simp: urxvtArrowKeys_def)
  have f: "\<And>t. tableGet (fold (\<lambda>(k, v). tableSet k v) urxvtFKeys t) ?x = tableGet t ?x"
    by (rule set_loop_frame) (auto simp: urxvtFKeys_def)
  have u: "\<And>t. tableGet (fold urxvtTildeKeys (csiTildeKeys flags) t) ?x = tableGet t ?x"
  proof (rule fold_frame)
    fix e' :: "string \<times> Key" and t
    assume "e' \<in> set (csiTildeKeys flags)"
    then show "tableGet (urxvtTildeKeys e' t) ?x = tableGet t ?x"
      by (auto simp: csiTildeKeys_def urxvtTildeKeys_frame)
  qed
  show ?thesis by (simp only: a f u)
qed

text \<open>
  C6, as the claim states it, fails: without \<^verbatim>\<open>FlagNoTerminfo\<close> the terminfo keys
  are registered last and overwrite what the table holds. With an overlay that
  assigns \<^verbatim>\<open>ESC [ 1 ; 6 A\<close> to the plain key Up, the table built with no flag set
  maps that sequence to Up with no modifier, not with the fifth entry of
  \<open>modifiers\<close> (Shift and Ctrl).
\<close>

theorem registerKeys_terminfo_overwrites:
  "FlagNoXTerm \<notin> ({} :: Flag set)
   \<and> tableGet (registerKeys (tableSet (ESC # ''[1;6A'') (zeroKey\<lparr>Sym := KeyUp\<rparr>)) {} [])
        (ESC # ''[1;'' @ ''6'' @ ''A'')
       = Some \<lparr>Sym = KeyUp, Rune = 0, Mod = 0, IsRepeat = False\<rparr>
   \<and> Itoa (int 5 + 1) = ''6''
   \<and> modifiers ! (5 - 1) = Shift OR Ctrl
   \<and> (0 :: Mod) \<noteq> Shift OR Ctrl"
proof -
  have 1: "tableGet (registerKeys (tableSet (ESC # ''[1;6A'') (zeroKey\<lparr>Sym := KeyUp\<rparr>)) {} [])
        (ESC # ''[1;'' @ ''6'' @ ''A'')
       = Some \<lparr>Sym = KeyUp, Rune = 0, Mod = 0, IsRepeat = False\<rparr>"
    by (simp add: registerKeys_def Let_def tableGet_tableSet zeroKey_def)
  have 2: "Itoa (int 5 + 1) = ''6''" by (simp add: Itoa_def digitChar_def itoaNat.simps)
  have 3: "modifiers ! (5 - 1) = Shift OR Ctrl" by (simp add: modifiers_def)
  have 4: "(0 :: Mod) \<noteq> Shift OR Ctrl" by (simp add: Shift_def Ctrl_def)
  show ?thesis using 1 2 3 4 by simp
qed

text \<open>
  C6, amended. Built without \<^verbatim>\<open>FlagNoXTerm\<close>, for every m from 1 to 15 and every
  final F of the CSI function keys (A, B, C, D, E, F, H, P, Q, R, S) with its event
  \<open>v\<close>: the table at the end of the Alt loop maps \<^verbatim>\<open>ESC [ 1 ; <m+1> F\<close> to \<open>v\<close> with
  the m-th entry of \<open>modifiers\<close> as its modifier set, and so does the table that
  \<^verbatim>\<open>registerKeys\<close> returns, provided \<^verbatim>\<open>FlagNoTerminfo\<close> is set or the terminfo
  overlay leaves the entry of that sequence as it is. That entry of \<open>modifiers\<close> is the
  bitset of value m, and \<open>v\<close> is the event of \<^verbatim>\<open>ESC [ F\<close> in the map literal. For the
  final A this is the key Up.
\<close>

theorem registerKeys_xterm_modifiers:
  assumes "FlagNoXTerm \<notin> flags"
    and "FlagNoTerminfo \<in> flags
         \<or> overlayKeeps registerTerminfoKeys (altPass order (preAltTable flags))
              (ESC # ''[1;'' @ Itoa (int m + 1) @ F)"
    and "1 \<le> m" and "m \<le> 15" and "(F, v) \<in> set csiFuncKeys"
  shows "tableGet (registerKeys registerTerminfoKeys flags order)
             (ESC # ''[1;'' @ Itoa (int m + 1) @ F)
           = Some (v\<lparr>Mod := modifiers ! (m - 1)\<rparr>)
     \<and> tableGet (altPass order (preAltTable flags)) (ESC # ''[1;'' @ Itoa (int m + 1) @ F)
           = Some (v\<lparr>Mod := modifiers ! (m - 1)\<rparr>)
     \<and> uint (modifiers ! (m - 1)) = int m
     \<and> tableGet (baseTable flags) (ESC # ''['' @ F) = Some v"
proof -
  let ?x = "ESC # ''[1;'' @ Itoa (int m + 1) @ F"
  let ?t = "altPass order (preAltTable flags)"
  have n: "uint (modifiers ! (m - 1)) = int m" by (rule modifiers_nth [OF assms(3,4)])
  have i: "m - 1 < 15" using assms(3,4) by arith
  have b: "baseKey ?x" by (simp add: baseKey_csi)
  have "tableGet ?t ?x = tableGet (preAltTable flags) ?x"
    by (rule altPass_frame_baseKey [OF preAltTable_keyStart b])
  also have "\<dots> = tableGet (fold (\<lambda>(k, v). tableSet k v) urxvtFKeys
              (fold urxvtTildeKeys (csiTildeKeys flags)
              (fold (\<lambda>(k, v). tableSet k v) urxvtArrowKeys
                (fold (xtermKeys flags) modifiers (baseTable flags))))) ?x"
    using assms(1) by (simp add: preAltTable_def Let_def)
  also have "\<dots> = tableGet (fold (xtermKeys flags) modifiers (baseTable flags)) ?x"
    by (rule urxvt_phase_csi_frame [OF assms(5)])
  also have "\<dots> = Some (v\<lparr>Mod := modifiers ! (m - 1)\<rparr>)"
    using xterm_phase_csi_lookup [OF assms(5) i, of flags "baseTable flags"]
    by (simp only: n)
  finally have 0: "tableGet ?t ?x = Some (v\<lparr>Mod := modifiers ! (m - 1)\<rparr>)" .
  have "tableGet (registerKeys registerTerminfoKeys flags order) ?x = tableGet ?t ?x"
  proof (cases "FlagNoTerminfo \<in> flags")
    case True
    then show ?thesis by (simp only: registerKeys_NoTerminfo)
  next
    case False
    then have k: "overlayKeeps registerTerminfoKeys ?t ?x" using assms(2) by blast
    have "registerKeys registerTerminfoKeys flags order = registerTerminfoKeys ?t"
      using False by (simp add: registerKeys_def Let_def)
    then show ?thesis using k by (simp only: overlayKeeps_def)
  qed
  then have 1: "tableGet (registerKeys registerTerminfoKeys flags order) ?x
      = Some (v\<lparr>Mod := modifiers ! (m - 1)\<rparr>)"
    using 0 by simp
  have 2: "tableGet (baseTable flags) (ESC # ''['' @ F) = Some v"
    by (rule csiFuncKeys_base [OF assms(5)])
  show ?thesis using 1 0 n 2 by blast
qed

theorem registerKeys_xterm_modifiers_witness:
  "FlagNoXTerm \<notin> ({} :: Flag set) \<and> FlagNoTerminfo \<notin> ({} :: Flag set)
   \<and> (''A'', zeroKey\<lparr>Sym := KeyUp\<rparr>) \<in> set csiFuncKeys
   \<and> overlayKeeps (tableSet (ESC # ''OA'') (zeroKey\<lparr>Sym := KeyUp\<rparr>))
        (altPass [] (preAltTable {})) (ESC # ''[1;6A'')
   \<and> tableGet (registerKeys (tableSet (ESC # ''OA'') (zeroKey\<lparr>Sym := KeyUp\<rparr>)) {} [])
        (ESC # ''[1;6A'')
       = Some \<lparr>Sym = KeyUp, Rune = 0, Mod = Shift OR Ctrl, IsRepeat = False\<rparr>
   \<and> tableGet (registerKeys (\<lambda>t. t) {FlagNoTerminfo} []) (ESC # ''[1;6A'')
       = Some \<lparr>Sym = KeyUp, Rune = 0, Mod = Shift OR Ctrl, IsRepeat = False\<rparr>
   \<and> tableGet (baseTable {}) (ESC # ''[A'')
       = Some \<lparr>Sym = KeyUp, Rune = 0, Mod = 0, IsRepeat = False\<rparr>"
proof -
  have a: "FlagNoXTerm \<notin> ({} :: Flag set)" by simp
  have a': "FlagNoXTerm \<notin> {FlagNoTerminfo}" by simp
  have r: "(1::nat) \<le> 5" "(5::nat) \<le> 15" by simp_all
  have c: "(''A'', zeroKey\<lparr>Sym := KeyUp\<rparr>) \<in> set csiFuncKeys"
    by (simp add: csiFuncKeys_def)
  have e: "Itoa 6 = ''6''" by (simp add: Itoa_def digitChar_def itoaNat.simps)
  have m: "modifiers ! 4 = Shift OR Ctrl" by (simp add: modifiers_def)
  have k: "overlayKeeps (tableSet (ESC # ''OA'') (zeroKey\<lparr>Sym := KeyUp\<rparr>))
        (altPass [] (preAltTable {})) (ESC # ''[1;'' @ Itoa (int 5 + 1) @ ''A'')"
    by (simp add: overlayKeeps_def tableGet_tableSet)
  have k': "overlayKeeps (tableSet (ESC # ''OA'') (zeroKey\<lparr>Sym := KeyUp\<rparr>))
        (altPass [] (preAltTable {})) (ESC # ''[1;6A'')"
    by (simp add: overlayKeeps_def tableGet_tableSet)
  have f: "FlagNoTerminfo \<in> {FlagNoTerminfo}" by simp
  show ?thesis
    using a c k'
      registerKeys_xterm_modifiers [OF a disjI2 [OF k] r c]
      registerKeys_xterm_modifiers [OF a' disjI1 [OF f] r c, of "\<lambda>t. t" "[]"]
    by (simp add: e m zeroKey_def)
qed

subsection \<open>The order of the visits of the Alt loop\<close>

lemma esc_in_preAltTable: "tableGet (preAltTable flags) [ESC] = Some (escKey flags)"
proof -
  have "tableGet (preAltTable flags) [ESC] = tableGet (baseTable flags) [ESC]"
    by (rule preAltTable_single)
  then show ?thesis by (simp add: tableGet_def baseTable_def)
qed

lemma no_double_esc_in_preAltTable:
  "ESC # ESC # s \<notin> set (tableKeys (preAltTable flags))"
proof
  assume "ESC # ESC # s \<in> set (tableKeys (preAltTable flags))"
  then have "baseKey (ESC # ESC # s)" using preAltTable_baseKey by blast
  then show False by (simp add: baseKey_def keyStart_def)
qed

lemma alt_pass_snapshot_run:
  "tableGet (altPass (tableKeys (preAltTable flags)) (preAltTable flags)) [ESC, ESC, ESC] = None"
proof -
  have "[ESC, ESC, ESC] \<notin> set (tableKeys (preAltTable flags))
          \<union> (\<lambda>k. ESC # k) ` set (tableKeys (preAltTable flags))"
    using no_double_esc_in_preAltTable [of "[ESC]" flags] no_double_esc_in_preAltTable [of "[]" flags]
    by auto
  then have "[ESC, ESC, ESC] \<notin> set (tableKeys (altPass (tableKeys (preAltTable flags))
      (preAltTable flags)))"
    using altPass_keys_upper [of "tableKeys (preAltTable flags)" "preAltTable flags"] by blast
  then show ?thesis by (simp add: tableGet_None_iff)
qed

lemma alt_pass_double_esc:
  "tableGet (altPass (tableKeys (preAltTable flags)) (preAltTable flags)) [ESC, ESC]
     = Some ((escKey flags)\<lparr>Mod := Mod (escKey flags) OR Alt\<rparr>)"
proof -
  have b: "baseKey [ESC]" by (simp add: baseKey_def keyStart_def)
  have m: "[ESC] \<in> set (tableKeys (preAltTable flags))"
    using esc_in_preAltTable [of flags] tableGet_None_iff [of "preAltTable flags" "[ESC]"] by simp
  show ?thesis
    by (rule altPass_visited [OF preAltTable_keyStart b esc_in_preAltTable preAltTable_distinct m])
qed

lemma alt_pass_longer_run:
  "tableGet (altPass (tableKeys (preAltTable flags) @ [[ESC, ESC]]) (preAltTable flags))
      [ESC, ESC, ESC]
     = Some ((escKey flags)\<lparr>Mod := Mod (escKey flags) OR Alt OR Alt\<rparr>)"
  by (simp add: altPass_append altPass_Cons altPass_def [of "[]"] altStep_get alt_pass_double_esc)

lemma rangeOrder_longer:
  "rangeOrder (preAltTable flags) (tableKeys (preAltTable flags) @ [[ESC, ESC]])"
proof -
  have 1: "distinct (tableKeys (preAltTable flags) @ [[ESC, ESC]])"
    using preAltTable_distinct [of flags] no_double_esc_in_preAltTable [of "[]" flags] by simp
  have "tableGet (altPass (tableKeys (preAltTable flags)) (preAltTable flags)) [ESC, ESC] \<noteq> None"
    by (simp add: alt_pass_double_esc)
  then have 2: "[ESC, ESC] \<in> set (tableKeys (altPass (tableKeys (preAltTable flags))
      (preAltTable flags)))"
    by (simp add: tableGet_None_iff)
  have 3: "visitsPresent (preAltTable flags) (tableKeys (preAltTable flags))"
    by (rule visitsPresent_subset) simp
  show ?thesis using 1 2 3 by (auto simp: rangeOrder_def visitsPresent_append)
qed

text \<open>
  C7. With the same flags (\<^verbatim>\<open>FlagNoTerminfo\<close> alone) two runs of \<^verbatim>\<open>registerKeys\<close>
  can end with different sets of keys. Both sequences of visits below are allowed:
  the first visits the keys present when the loop starts, the second also visits the
  key ESC ESC that the loop has created. Only the second run leaves the key
  ESC ESC ESC in the table.
\<close>

theorem registerKeys_depends_on_range_order:
  "rangeOrder (preAltTable {FlagNoTerminfo}) (tableKeys (preAltTable {FlagNoTerminfo}))
   \<and> rangeOrder (preAltTable {FlagNoTerminfo})
        (tableKeys (preAltTable {FlagNoTerminfo}) @ [[ESC, ESC]])
   \<and> tableGet (registerKeys (\<lambda>t. t) {FlagNoTerminfo}
        (tableKeys (preAltTable {FlagNoTerminfo}))) [ESC, ESC, ESC] = None
   \<and> tableGet (registerKeys (\<lambda>t. t) {FlagNoTerminfo}
        (tableKeys (preAltTable {FlagNoTerminfo}) @ [[ESC, ESC]])) [ESC, ESC, ESC]
       = Some \<lparr>Sym = KeyEscape, Rune = 0, Mod = Alt, IsRepeat = False\<rparr>"
proof -
  have 1: "rangeOrder (preAltTable {FlagNoTerminfo}) (tableKeys (preAltTable {FlagNoTerminfo}))"
    by (rule rangeOrder_snapshot [OF preAltTable_distinct])
  have 2: "rangeOrder (preAltTable {FlagNoTerminfo})
        (tableKeys (preAltTable {FlagNoTerminfo}) @ [[ESC, ESC]])"
    by (rule rangeOrder_longer)
  have 3: "tableGet (registerKeys (\<lambda>t. t) {FlagNoTerminfo}
        (tableKeys (preAltTable {FlagNoTerminfo}))) [ESC, ESC, ESC] = None"
    by (simp add: registerKeys_NoTerminfo alt_pass_snapshot_run)
  have 4: "tableGet (registerKeys (\<lambda>t. t) {FlagNoTerminfo}
        (tableKeys (preAltTable {FlagNoTerminfo}) @ [[ESC, ESC]])) [ESC, ESC, ESC]
       = Some \<lparr>Sym = KeyEscape, Rune = 0, Mod = Alt, IsRepeat = False\<rparr>"
    by (simp add: registerKeys_NoTerminfo alt_pass_longer_run escKey_def zeroKey_def Alt_def)
  show ?thesis using 1 2 3 4 by blast
qed

end
